theory Spec2Isabelle
  imports Main "HOL-Library.Sublist" "HOL-Library.AList"
begin

text \<open>
  The judgment-synthesis engine of the L1 dashboard (\<open>l1_dashboard.py\<close>,
  \<open>l1_dashboard_web.py\<close>): the parser of ratings, the contradiction resolver, the
  request executor with its candidate models, the rule-based scorer, the table of ratings
  and the evaluation loop controller, each as a function that computes what the source
  computes, and then the properties proved of them. The names are those of the source,
  without the leading underscore.
\<close>

section \<open>Python values, strings and library parameters\<close>

text \<open>
  Strings are lists of 8-bit characters: a Python \<open>str\<close> whose code points are below 256
  (Latin-1), one \<open>char\<close> per code point, so \<open>length\<close> counts what Python's \<open>len\<close>
  counts. On this range the character classes below are exactly CPython's
  (\<open>str.isspace\<close> and the regular expression classes \<open>\s\<close>, \<open>\d\<close>, \<open>\w\<close>,
  \<open>str.lower\<close>, and NFD decomposition with the combining marks dropped).
\<close>

definition codepoint :: "char \<Rightarrow> nat" where
  "codepoint c = of_char c"

definition isspace :: "char \<Rightarrow> bool" where
  "isspace c = (let n = codepoint c in (9 \<le> n \<and> n \<le> 13) \<or> (28 \<le> n \<and> n \<le> 32) \<or> n = 133 \<or> n = 160)"

definition isdigit :: "char \<Rightarrow> bool" where
  "isdigit c = (let n = codepoint c in 48 \<le> n \<and> n \<le> 57)"

definition is_1_5 :: "char \<Rightarrow> bool" where
  "is_1_5 c = (let n = codepoint c in 49 \<le> n \<and> n \<le> 53)"

definition isword :: "char \<Rightarrow> bool" where
  "isword c = (let n = codepoint c in
     (48 \<le> n \<and> n \<le> 57) \<or> (65 \<le> n \<and> n \<le> 90) \<or> n = 95 \<or> (97 \<le> n \<and> n \<le> 122) \<or>
     n = 170 \<or> n = 178 \<or> n = 179 \<or> n = 181 \<or> n = 185 \<or> n = 186 \<or>
     (188 \<le> n \<and> n \<le> 190) \<or> (192 \<le> n \<and> n \<le> 214) \<or> (216 \<le> n \<and> n \<le> 246) \<or>
     (248 \<le> n \<and> n \<le> 255))"

definition lower_char :: "char \<Rightarrow> char" where
  "lower_char c = (let n = codepoint c in
     if (65 \<le> n \<and> n \<le> 90) \<or> (192 \<le> n \<and> n \<le> 222 \<and> n \<noteq> 215) then char_of (n + 32) else c)"

definition lower :: "string \<Rightarrow> string" where
  "lower s = map lower_char s"

definition strip :: "string \<Rightarrow> string" where
  "strip s = rev (dropWhile isspace (rev (dropWhile isspace s)))"

text \<open>\<open>needle in s\<close> for strings.\<close>

fun contains :: "string \<Rightarrow> string \<Rightarrow> bool" where
  "contains needle [] = (needle = [])"
| "contains needle (c # cs) = (prefix needle (c # cs) \<or> contains needle cs)"

text \<open>\<open>s.split(sep)\<close> for a one-character separator.\<close>

fun split_chr :: "char \<Rightarrow> string \<Rightarrow> string list" where
  "split_chr sep [] = [[]]"
| "split_chr sep (c # cs) =
     (if c = sep then [] # split_chr sep cs
      else (case split_chr sep cs of [] \<Rightarrow> [[c]] | p # ps \<Rightarrow> (c # p) # ps))"

text \<open>\<open>s.split('```')\<close>: non-overlapping occurrences, leftmost first.\<close>

fun split_fence :: "string \<Rightarrow> string list" where
  "split_fence (a # b # c # cs) =
     (if a = CHR 0x60 \<and> b = CHR 0x60 \<and> c = CHR 0x60 then [] # split_fence cs
      else (case split_fence (b # c # cs) of [] \<Rightarrow> [[a]] | p # ps \<Rightarrow> (a # p) # ps))"
| "split_fence s = [s]"

text \<open>
  The values \<open>json.loads\<close> and the HTTP bodies produce. A finite float is \<open>m * 2 ^ e\<close>
  (\<open>FFin m e\<close>); a dictionary is the list of its items.
\<close>

datatype pyfloat = FNan | FInf | FNegInf | FFin int int

datatype pyval =
    PNone
  | PBool bool
  | PInt int
  | PFloat pyfloat
  | PStr string
  | PList "pyval list"
  | PDict "(string \<times> pyval) list"

datatype exn =
    JSONDecodeError | TypeError | ValueError | AttributeError | OverflowError
  | KeyError | RecursionError | OtherError

text \<open>
  Library behaviour the repository does not define is a parameter:
  \<^item> \<open>json_loads\<close>: \<open>json.loads\<close> on a string, raising or returning a value;
  \<open>int_of_str\<close>: \<open>int(s)\<close> on a string (\<open>None\<close> is \<open>ValueError\<close>, which includes the
  interpreter's limit on the number of digits);
  \<^item> \<open>dict_slice_error\<close>: what \<open>d[:60]\<close> raises on a non-empty dictionary
  (\<open>TypeError\<close> before Python 3.12, \<open>KeyError\<close> from 3.12 on).
\<close>

record pylib =
  json_loads :: "string \<Rightarrow> exn + pyval"
  int_of_str :: "string \<Rightarrow> int option"
  dict_slice_error :: exn

text \<open>Truthiness of a value (\<open>bool(v)\<close>).\<close>

fun truthy :: "pyval \<Rightarrow> bool" where
  "truthy PNone = False"
| "truthy (PBool b) = b"
| "truthy (PInt n) = (n \<noteq> 0)"
| "truthy (PFloat f) = (case f of FFin m e \<Rightarrow> m \<noteq> 0 | _ \<Rightarrow> True)"
| "truthy (PStr s) = (s \<noteq> [])"
| "truthy (PList xs) = (xs \<noteq> [])"
| "truthy (PDict kvs) = (kvs \<noteq> [])"

text \<open>\<open>d.get(k)\<close> on a dictionary: \<open>None\<close> for a missing key.\<close>

definition dict_get :: "(string \<times> pyval) list \<Rightarrow> string \<Rightarrow> pyval" where
  "dict_get kvs k = (case map_of kvs k of None \<Rightarrow> PNone | Some v \<Rightarrow> v)"

text \<open>\<open>int(v)\<close>: truncation toward zero on floats.\<close>

definition trunc_float :: "int \<Rightarrow> int \<Rightarrow> int" where
  "trunc_float m e =
     (if 0 \<le> e then m * 2 ^ nat e
      else if 0 \<le> m then m div 2 ^ nat (- e) else - ((- m) div 2 ^ nat (- e)))"

fun py_int :: "pylib \<Rightarrow> pyval \<Rightarrow> exn + int" where
  "py_int lib PNone = Inl TypeError"
| "py_int lib (PBool b) = Inr (if b then 1 else 0)"
| "py_int lib (PInt n) = Inr n"
| "py_int lib (PFloat f) =
     (case f of FNan \<Rightarrow> Inl ValueError | FInf \<Rightarrow> Inl OverflowError
      | FNegInf \<Rightarrow> Inl OverflowError | FFin m e \<Rightarrow> Inr (trunc_float m e))"
| "py_int lib (PStr s) = (case int_of_str lib s of None \<Rightarrow> Inl ValueError | Some n \<Rightarrow> Inr n)"
| "py_int lib (PList xs) = Inl TypeError"
| "py_int lib (PDict kvs) = Inl TypeError"

text \<open>\<open>(v or '')[:n]\<close>: the slice of a string or list; a number is not subscriptable.\<close>

definition or_empty_slice :: "pylib \<Rightarrow> nat \<Rightarrow> pyval \<Rightarrow> exn + pyval" where
  "or_empty_slice lib n v =
     (if \<not> truthy v then Inr (PStr [])
      else (case v of
          PStr s \<Rightarrow> Inr (PStr (take n s))
        | PList xs \<Rightarrow> Inr (PList (take n xs))
        | PDict kvs \<Rightarrow> Inl (dict_slice_error lib)
        | _ \<Rightarrow> Inl TypeError))"

section \<open>The rating parser\<close>

text \<open>A judgment (the word is reserved, hence the spelling of the type): \<open>{'nota': ..., 'comentario': ...}\<close>; \<open>nota = None\<close> is Python's \<open>None\<close>.\<close>

record judgement =
  nota :: "int option"
  comentario :: pyval

text \<open>
  \<open>_nota_is_evaluated\<close> on an entry that is present: the rating is an integer from 1 to 5.
\<close>

definition nota_is_evaluated :: "judgement \<Rightarrow> bool" where
  "nota_is_evaluated entry = (case nota entry of None \<Rightarrow> False | Some n \<Rightarrow> 1 \<le> n \<and> n \<le> 5)"

definition digit_val :: "char \<Rightarrow> int" where
  "digit_val c = int (codepoint c) - 48"

text \<open>\<open>com or 'OK'\<close> on a string.\<close>

definition or_OK :: "string \<Rightarrow> string" where
  "or_OK com = (if com = [] then ''OK'' else com)"

text \<open>
  \<open>re.match(r'^\s*([1-5])\s*[-.:]\s*(.+)$', s, re.DOTALL)\<close>: groups 1 and 2. After the
  separator the greedy \<open>\s*\<close> takes every leading blank; when nothing is left for
  \<open>.+\<close> it gives one back, so group 2 is then the last blank.
\<close>

definition match_nota_resumo :: "string \<Rightarrow> (char \<times> string) option" where
  "match_nota_resumo s =
     (case dropWhile isspace s of
        [] \<Rightarrow> None
      | d # s2 \<Rightarrow>
          if \<not> is_1_5 d then None
          else (case dropWhile isspace s2 of
              [] \<Rightarrow> None
            | p # s4 \<Rightarrow>
                if p \<noteq> CHR ''-'' \<and> p \<noteq> CHR ''.'' \<and> p \<noteq> CHR '':'' then None
                else (let s5 = dropWhile isspace s4 in
                  if s5 \<noteq> [] then Some (d, s5)
                  else if s4 \<noteq> [] then Some (d, [last s4])
                  else None)))"

text \<open>\<open>re.match(r'^\s*([1-5])\s*$', s)\<close>: group 1.\<close>

definition match_nota_only :: "string \<Rightarrow> char option" where
  "match_nota_only s =
     (case dropWhile isspace s of
        [] \<Rightarrow> None
      | d # s2 \<Rightarrow> if is_1_5 d \<and> dropWhile isspace s2 = [] then Some d else None)"

text \<open>The two formats on one text (lines 857--864, and 868--875 per line).\<close>

definition parse_nota_line :: "string \<Rightarrow> judgement option" where
  "parse_nota_line s =
     (case match_nota_resumo s of
        Some (d, g2) \<Rightarrow>
          Some \<lparr>nota = Some (digit_val d), comentario = PStr (or_OK (take 60 (strip g2)))\<rparr>
      | None \<Rightarrow>
          (case match_nota_only s of
             Some d \<Rightarrow> Some \<lparr>nota = Some (digit_val d), comentario = PStr ''OK''\<rparr>
           | None \<Rightarrow> None))"

text \<open>\<open>for line in content.split('\n')\<close>: the first line that parses.\<close>

fun parse_nota_lines :: "string list \<Rightarrow> judgement option" where
  "parse_nota_lines [] = None"
| "parse_nota_lines (line # rest) =
     (case parse_nota_line (strip line) of
        Some r \<Rightarrow> Some r
      | None \<Rightarrow> parse_nota_lines rest)"

text \<open>
  Lines 877--885: the first part between code fences that starts with \<open>{\<close>, after an
  optional \<open>json\<close> tag; \<open>None\<close> when the loop ends without \<open>break\<close>.
\<close>

fun fence_part :: "string list \<Rightarrow> string option" where
  "fence_part [] = None"
| "fence_part (p # ps) =
     (let p1 = strip p;
          p2 = (if prefix ''json'' (lower p1) then strip (drop 4 p1) else p1)
      in if prefix ''{'' p2 then Some p2 else fence_part ps)"

definition strip_fences :: "string \<Rightarrow> string" where
  "strip_fences content =
     (if contains ''```'' content
      then (case fence_part (split_fence content) of Some p \<Rightarrow> p | None \<Rightarrow> content)
      else content)"

text \<open>
  Lines 893--919, the brace counter from index \<open>i\<close> on: the index of the \<open>}\<close> that
  brings the depth back to 0, \<open>None\<close> when the text ends first.
\<close>

fun scan_braces :: "string \<Rightarrow> nat \<Rightarrow> int \<Rightarrow> char option \<Rightarrow> bool \<Rightarrow> nat option" where
  "scan_braces [] i depth in_string escape = None"
| "scan_braces (c # cs) i depth in_string escape =
     (if escape then scan_braces cs (i + 1) depth in_string False
      else if c = CHR 0x5C \<and> in_string \<noteq> None then scan_braces cs (i + 1) depth in_string True
      else if in_string \<noteq> None then
        scan_braces cs (i + 1) depth (if Some c = in_string then None else in_string) False
      else if c = CHR 0x22 \<or> c = CHR 0x27 then scan_braces cs (i + 1) depth (Some c) False
      else if c = CHR ''{'' then scan_braces cs (i + 1) (depth + 1) in_string False
      else if c = CHR ''}'' then
        (if depth - 1 = 0 then Some i else scan_braces cs (i + 1) (depth - 1) in_string False)
      else scan_braces cs (i + 1) depth in_string False)"

text \<open>\<open>s.find('{')\<close>.\<close>

fun find_chr :: "char \<Rightarrow> string \<Rightarrow> nat option" where
  "find_chr x [] = None"
| "find_chr x (c # cs) = (if c = x then Some 0 else map_option Suc (find_chr x cs))"

definition balanced_object :: "string \<Rightarrow> string" where
  "balanced_object content =
     (case find_chr CHR ''{'' content of
        None \<Rightarrow> content
      | Some start \<Rightarrow>
          (case scan_braces (drop start content) start 0 None False of
             None \<Rightarrow> content
           | Some i \<Rightarrow> take (i + 1 - start) (drop start content)))"

text \<open>
  Lines 920--933. \<open>Inr (Some r)\<close> is the \<open>return\<close>; \<open>Inr None\<close> is the \<open>pass\<close> of the
  handler for \<open>JSONDecodeError\<close> and \<open>TypeError\<close>; \<open>Inl e\<close> is an exception the handler
  does not catch (\<open>data.get\<close> on a value that is not a dictionary, \<open>int\<close> of an infinity).
\<close>

definition clamp_1_5 :: "int \<Rightarrow> int" where
  "clamp_1_5 n = max 1 (min 5 n)"

definition caught :: "exn \<Rightarrow> bool" where
  "caught e = (e = JSONDecodeError \<or> e = TypeError)"

text \<open>\<open>except (TypeError, ValueError)\<close>; \<open>JSONDecodeError\<close> is a subclass of \<open>ValueError\<close>.\<close>

definition caught_inner :: "exn \<Rightarrow> bool" where
  "caught_inner e = (e = TypeError \<or> e = ValueError \<or> e = JSONDecodeError)"

definition nota_of_json :: "pylib \<Rightarrow> pyval \<Rightarrow> exn + int option" where
  "nota_of_json lib n0 =
     (if n0 = PNone then Inr None
      else (case py_int lib n0 of
              Inr n \<Rightarrow> Inr (Some (clamp_1_5 n))
            | Inl e \<Rightarrow> if caught_inner e then Inr None else Inl e))"

definition parse_nota_json :: "pylib \<Rightarrow> string \<Rightarrow> exn + judgement option" where
  "parse_nota_json lib content =
     (case json_loads lib content of
        Inl e \<Rightarrow> if caught e then Inr None else Inl e
      | Inr data \<Rightarrow>
          (case data of
             PDict kvs \<Rightarrow>
               (case nota_of_json lib (dict_get kvs ''nota'') of
                  Inl e \<Rightarrow> if caught e then Inr None else Inl e
                | Inr n1 \<Rightarrow>
                    (let n2 = (case n1 of None \<Rightarrow> None
                               | Some n \<Rightarrow> if n < 1 \<or> n > 5 then None else Some n)
                     in case or_empty_slice lib 60 (dict_get kvs ''comentario'') of
                          Inl e \<Rightarrow> if caught e then Inr None else Inl e
                        | Inr com \<Rightarrow>
                            Inr (Some \<lparr>nota = Some (case n2 of None \<Rightarrow> 0 | Some n \<Rightarrow> n),
                                       comentario = (if truthy com then com else PStr ''OK'')\<rparr>)))
           | _ \<Rightarrow> Inl AttributeError))"

subsection \<open>The regular-expression fallbacks\<close>

text \<open>\<open>re.search\<close>: the leftmost position where the pattern matches.\<close>

fun search :: "(string \<Rightarrow> 'a option) \<Rightarrow> string \<Rightarrow> 'a option" where
  "search f [] = f []"
| "search f (c # cs) = (case f (c # cs) of Some r \<Rightarrow> Some r | None \<Rightarrow> search f cs)"

text \<open>The same for a pattern with \<open>\b\<close>, which looks at the character before the position.\<close>

fun search_b :: "(char option \<Rightarrow> string \<Rightarrow> 'a option) \<Rightarrow> char option \<Rightarrow> string \<Rightarrow> 'a option" where
  "search_b f prev [] = f prev []"
| "search_b f prev (c # cs) =
     (case f prev (c # cs) of Some r \<Rightarrow> Some r | None \<Rightarrow> search_b f (Some c) cs)"

text \<open>A literal under \<open>re.I\<close> at the start of \<open>s\<close> (\<open>lit\<close> in lower case): what follows it.\<close>

definition ci_lit :: "string \<Rightarrow> string \<Rightarrow> string option" where
  "ci_lit lit s =
     (if length lit \<le> length s \<and> lower (take (length lit) s) = lit
      then Some (drop (length lit) s) else None)"

definition isquote :: "char \<Rightarrow> bool" where
  "isquote c = (c = CHR 0x22 \<or> c = CHR 0x27)"

text \<open>\<open>["\']?\<close>: an optional quote.\<close>

definition skip_quote :: "string \<Rightarrow> string" where
  "skip_quote s = (case s of [] \<Rightarrow> [] | q # r \<Rightarrow> if isquote q then r else s)"

text \<open>\<open>\b\<close> after a word character: the end, or a character that is not a word character.\<close>

definition boundary_after :: "string \<Rightarrow> bool" where
  "boundary_after s = (case s of [] \<Rightarrow> True | c # _ \<Rightarrow> \<not> isword c)"

text \<open>\<open>\b\<close> before a word character.\<close>

definition boundary_before :: "char option \<Rightarrow> bool" where
  "boundary_before prev = (case prev of None \<Rightarrow> True | Some c \<Rightarrow> \<not> isword c)"

text \<open>\<open>"nota"\s*:\s*["\']?(\d+)["\']?\<close> at the start of \<open>s\<close>: group 1.\<close>

definition match_nota_key :: "string \<Rightarrow> string option" where
  "match_nota_key s =
     (case ci_lit ''\"nota\"'' s of
        None \<Rightarrow> None
      | Some r1 \<Rightarrow>
          (case dropWhile isspace r1 of
             [] \<Rightarrow> None
           | p # r2 \<Rightarrow>
               if p \<noteq> CHR '':'' then None
               else (let ds = takeWhile isdigit (skip_quote (dropWhile isspace r2))
                     in if ds = [] then None else Some ds)))"

text \<open>\<open>((?:[^"\\]|\\.)*)"\<close>: the body up to the closing quote; \<open>.\<close> is not a newline.\<close>

fun string_body :: "string \<Rightarrow> string option" where
  "string_body [] = None"
| "string_body (c # cs) =
     (if c = CHR 0x22 then Some []
      else if c = CHR 0x5C then
        (case cs of
           [] \<Rightarrow> None
         | d # ds \<Rightarrow> if d = CHR 0x0A then None else map_option (\<lambda>b. c # d # b) (string_body ds))
      else map_option (\<lambda>b. c # b) (string_body cs))"

text \<open>\<open>"comentario"\s*:\s*"((?:[^"\\]|\\.)*)"\<close> at the start of \<open>s\<close>: group 1.\<close>

definition match_comentario_key :: "string \<Rightarrow> string option" where
  "match_comentario_key s =
     (case ci_lit ''\"comentario\"'' s of
        None \<Rightarrow> None
      | Some r1 \<Rightarrow>
          (case dropWhile isspace r1 of
             [] \<Rightarrow> None
           | p # r2 \<Rightarrow>
               if p \<noteq> CHR '':'' then None
               else (case dropWhile isspace r2 of
                       [] \<Rightarrow> None
                     | q # r3 \<Rightarrow> if q = CHR 0x22 then string_body r3 else None)))"

text \<open>\<open>s.replace('\\"', '"')\<close>.\<close>

fun unescape_quotes :: "string \<Rightarrow> string" where
  "unescape_quotes (a # b # cs) =
     (if a = CHR 0x5C \<and> b = CHR 0x22 then b # unescape_quotes cs
      else a # unescape_quotes (b # cs))"
| "unescape_quotes s = s"

text \<open>\<open>nota\s*[=:]\s*["\']?([1-5])["\']?\<close> at the start of \<open>s\<close>: group 1.\<close>

definition match_nota_eq :: "string \<Rightarrow> char option" where
  "match_nota_eq s =
     (case ci_lit ''nota'' s of
        None \<Rightarrow> None
      | Some r1 \<Rightarrow>
          (case dropWhile isspace r1 of
             [] \<Rightarrow> None
           | p # r2 \<Rightarrow>
               if p \<noteq> CHR ''='' \<and> p \<noteq> CHR '':'' then None
               else (case skip_quote (dropWhile isspace r2) of
                       [] \<Rightarrow> None
                     | d # _ \<Rightarrow> if is_1_5 d then Some d else None)))"

text \<open>\<open>["\']nota["\']\s*:\s*([1-5])\b\<close> at the start of \<open>s\<close>: group 1.\<close>

definition match_nota_quoted :: "string \<Rightarrow> char option" where
  "match_nota_quoted s =
     (case s of
        [] \<Rightarrow> None
      | q # r0 \<Rightarrow>
          if \<not> isquote q then None
          else (case ci_lit ''nota'' r0 of
              None \<Rightarrow> None
            | Some r1 \<Rightarrow>
                (case r1 of
                   [] \<Rightarrow> None
                 | q2 # r2 \<Rightarrow>
                     if \<not> isquote q2 then None
                     else (case dropWhile isspace r2 of
                         [] \<Rightarrow> None
                       | p # r3 \<Rightarrow>
                           if p \<noteq> CHR '':'' then None
                           else (case dropWhile isspace r3 of
                               [] \<Rightarrow> None
                             | d # r4 \<Rightarrow>
                                 if is_1_5 d \<and> boundary_after r4 then Some d else None)))))"

text \<open>\<open>\b([1-5])\s*/\s*5\<close> at the start of \<open>s\<close>, after \<open>prev\<close>: group 1.\<close>

definition match_n_of_5 :: "char option \<Rightarrow> string \<Rightarrow> char option" where
  "match_n_of_5 prev s =
     (case s of
        [] \<Rightarrow> None
      | d # r1 \<Rightarrow>
          if \<not> (is_1_5 d \<and> boundary_before prev) then None
          else (case dropWhile isspace r1 of
              [] \<Rightarrow> None
            | p # r2 \<Rightarrow>
                if p \<noteq> CHR ''/'' then None
                else (case dropWhile isspace r2 of
                    [] \<Rightarrow> None
                  | f # _ \<Rightarrow> if f = CHR ''5'' then Some d else None)))"

text \<open>\<open>\bnota\s+([1-5])\b\<close> at the start of \<open>s\<close>, after \<open>prev\<close>: group 1.\<close>

definition match_nota_space :: "char option \<Rightarrow> string \<Rightarrow> char option" where
  "match_nota_space prev s =
     (if \<not> boundary_before prev then None
      else (case ci_lit ''nota'' s of
          None \<Rightarrow> None
        | Some r1 \<Rightarrow>
            (case r1 of
               [] \<Rightarrow> None
             | w # r2 \<Rightarrow>
                 if \<not> isspace w then None
                 else (case dropWhile isspace r2 of
                     [] \<Rightarrow> None
                   | d # r3 \<Rightarrow> if is_1_5 d \<and> boundary_after r3 then Some d else None))))"

text \<open>\<open>\b([1-5])\b\<close> at the start of \<open>s\<close>, after \<open>prev\<close>: group 1.\<close>

definition match_lone_digit :: "char option \<Rightarrow> string \<Rightarrow> char option" where
  "match_lone_digit prev s =
     (case s of
        [] \<Rightarrow> None
      | d # r \<Rightarrow> if is_1_5 d \<and> boundary_before prev \<and> boundary_after r then Some d else None)"

definition ok_judgement :: "char \<Rightarrow> judgement" where
  "ok_judgement d = \<lparr>nota = Some (digit_val d), comentario = PStr ''OK''\<rparr>"

text \<open>Lines 945--950: the four patterns in order, each searched in the whole text.\<close>

definition nota_patterns :: "(string \<Rightarrow> char option) list" where
  "nota_patterns =
     [search match_nota_eq, search match_nota_quoted,
      search_b match_n_of_5 None, search_b match_nota_space None]"

fun try_patterns :: "(string \<Rightarrow> char option) list \<Rightarrow> string \<Rightarrow> judgement option" where
  "try_patterns [] content = None"
| "try_patterns (pat # pats) content =
     (case pat content of
        Some d \<Rightarrow> if 1 \<le> digit_val d \<and> digit_val d \<le> 5 then Some (ok_judgement d)
                  else try_patterns pats content
      | None \<Rightarrow> try_patterns pats content)"

text \<open>Lines 952--955: a lone digit in the last 300 characters, then anywhere.\<close>

fun try_chunks :: "string list \<Rightarrow> judgement option" where
  "try_chunks [] = None"
| "try_chunks (chunk # chunks) =
     (case search_b match_lone_digit None chunk of
        Some d \<Rightarrow> Some (ok_judgement d)
      | None \<Rightarrow> try_chunks chunks)"

text \<open>Lines 944--956.\<close>

definition parse_nota_last_resort :: "string \<Rightarrow> judgement option" where
  "parse_nota_last_resort content =
     (case try_patterns nota_patterns content of
        Some r \<Rightarrow> Some r
      | None \<Rightarrow> try_chunks [drop (length content - 300) content, content])"

text \<open>Lines 934--956. \<open>int\<close> of group 1 is outside any handler.\<close>

definition parse_nota_fallback :: "pylib \<Rightarrow> string \<Rightarrow> exn + judgement option" where
  "parse_nota_fallback lib content =
     (case search match_nota_key content of
        None \<Rightarrow> Inr (parse_nota_last_resort content)
      | Some ds \<Rightarrow>
          (case int_of_str lib ds of
             None \<Rightarrow> Inl ValueError
           | Some n \<Rightarrow>
               (let nota1 = clamp_1_5 n;
                    com = (case search match_comentario_key content of
                             None \<Rightarrow> []
                           | Some b \<Rightarrow> take 60 (unescape_quotes b))
                in if 1 \<le> nota1 \<and> nota1 \<le> 5
                   then Inr (Some \<lparr>nota = Some nota1, comentario = PStr (take 60 (or_OK com))\<rparr>)
                   else Inr (parse_nota_last_resort content))))"

subsection \<open>The parser\<close>

text \<open>Lines 855--956, on the stripped text.\<close>

definition parse_nota_text :: "pylib \<Rightarrow> string \<Rightarrow> exn + judgement option" where
  "parse_nota_text lib content =
     (case parse_nota_line content of
        Some r \<Rightarrow> Inr (Some r)
      | None \<Rightarrow>
          (case parse_nota_lines (split_chr CHR 0x0A content) of
             Some r \<Rightarrow> Inr (Some r)
           | None \<Rightarrow>
               (let content2 = balanced_object (strip_fences content) in
                case parse_nota_json lib content2 of
                  Inl e \<Rightarrow> Inl e
                | Inr (Some r) \<Rightarrow> Inr (Some r)
                | Inr None \<Rightarrow> parse_nota_fallback lib content2)))"

text \<open>
  \<open>_parse_ollama_nota_response\<close>: \<open>Inr None\<close> is the result \<open>None\<close>, \<open>Inl e\<close> an
  exception that leaves the function.
\<close>

definition parse_ollama_nota_response :: "pylib \<Rightarrow> pyval \<Rightarrow> exn + judgement option" where
  "parse_ollama_nota_response lib content =
     (case content of
        PStr s \<Rightarrow> if s = [] then Inr None else parse_nota_text lib (strip s)
      | _ \<Rightarrow> Inr None)"

subsection \<open>A sample library for the concrete examples\<close>

text \<open>
  What CPython's \<open>json.loads\<close> returns on the two JSON texts used in the examples of
  this theory; every other text is taken as undecodable, as \<open>no idea\<close> is. The general
  theorems hold for every library; only the concrete examples use this one.
\<close>

definition sample_loads :: "string \<Rightarrow> exn + pyval" where
  "sample_loads s =
     (if s = ''{\"nota\": 5, \"comentario\": \"ok\"}''
        then Inr (PDict [(''nota'', PInt 5), (''comentario'', PStr ''ok'')])
      else if s = ''{\"comentario\": \"x\"}''
        then Inr (PDict [(''comentario'', PStr ''x'')])
      else Inl JSONDecodeError)"

text \<open>\<open>int\<close> on a non-empty string of ASCII digits; anything else is refused here.\<close>

definition sample_int_of_str :: "string \<Rightarrow> int option" where
  "sample_int_of_str s =
     (if s \<noteq> [] \<and> list_all isdigit s
      then Some (foldl (\<lambda>acc c. 10 * acc + (int (codepoint c) - 48)) 0 s) else None)"

definition sample_lib :: pylib where
  "sample_lib =
     \<lparr>json_loads = sample_loads, int_of_str = sample_int_of_str, dict_slice_error = TypeError\<rparr>"

text \<open>The fenced example of the specification: three lines, the middle one a JSON object.\<close>

definition fenced_example :: string where
  "fenced_example =
     ''```json'' @ [CHR 0x0A] @ ''{\"nota\": 5, \"comentario\": \"ok\"}'' @ [CHR 0x0A] @ ''```''"

section \<open>The contradiction resolver\<close>

text \<open>
  NFD decomposition with the combining marks dropped, on one Latin-1 character: an
  accented letter becomes its base letter, every other character stays.
\<close>

definition deaccent_char :: "char \<Rightarrow> char" where
  "deaccent_char c = (let n = codepoint c in
     if 192 \<le> n \<and> n \<le> 197 then CHR ''A''
     else if n = 199 then CHR ''C''
     else if 200 \<le> n \<and> n \<le> 203 then CHR ''E''
     else if 204 \<le> n \<and> n \<le> 207 then CHR ''I''
     else if n = 209 then CHR ''N''
     else if 210 \<le> n \<and> n \<le> 214 then CHR ''O''
     else if 217 \<le> n \<and> n \<le> 220 then CHR ''U''
     else if n = 221 then CHR ''Y''
     else if 224 \<le> n \<and> n \<le> 229 then CHR ''a''
     else if n = 231 then CHR ''c''
     else if 232 \<le> n \<and> n \<le> 235 then CHR ''e''
     else if 236 \<le> n \<and> n \<le> 239 then CHR ''i''
     else if n = 241 then CHR ''n''
     else if 242 \<le> n \<and> n \<le> 246 then CHR ''o''
     else if 249 \<le> n \<and> n \<le> 252 then CHR ''u''
     else if n = 253 \<or> n = 255 then CHR ''y''
     else c)"

text \<open>\<open>_normalize_for_contradiction\<close> on a string (the empty string gives the empty string).\<close>

definition normalize_for_contradiction :: "string \<Rightarrow> string" where
  "normalize_for_contradiction text = map deaccent_char (lower (strip text))"

text \<open>
  The tests of \<open>_remove_contradictions\<close> on a normalized text \<open>n\<close>, with Python's
  precedence (\<open>and\<close> binds tighter than \<open>or\<close>). Lines 1267--1268 and 1272--1273:
\<close>

definition frt_estourado :: "string \<Rightarrow> bool" where
  "frt_estourado n =
     (contains ''frt estourado'' n
      \<or> (contains ''first response'' n \<and> (contains ''estourado'' n \<or> contains ''fora'' n))
      \<or> (contains ''time to first response'' n \<and> contains ''estourado'' n))"

definition ttr_estourado :: "string \<Rightarrow> bool" where
  "ttr_estourado n =
     (contains ''ttr estourado'' n
      \<or> ((contains ''time to resolution'' n \<or> contains ''time to close'' n) \<and> contains ''estourado'' n)
      \<or> (contains ''resolution'' n \<and> contains ''estourado'' n))"

text \<open>Lines 1282 and 1291, 1284 and 1295: a strength that claims the sub-metric was met.\<close>

definition sla_ok_words :: "string \<Rightarrow> bool" where
  "sla_ok_words n = (contains ''dentro'' n \<or> contains ''cumprido'' n \<or> contains ''sla'' n)"

definition frt_dentro :: "string \<Rightarrow> bool" where
  "frt_dentro n = ((contains ''frt'' n \<or> contains ''first response'' n) \<and> sla_ok_words n)"

definition ttr_dentro :: "string \<Rightarrow> bool" where
  "ttr_dentro n =
     ((contains ''ttr'' n \<or> contains ''resolution'' n \<or> contains ''time to close'' n)
      \<and> sla_ok_words n)"

text \<open>\<open>_forte_contradiz_sla\<close> (lines 1276--1286), with the two flags it closes over.\<close>

definition forte_contradiz_sla :: "bool \<Rightarrow> bool \<Rightarrow> string \<Rightarrow> bool" where
  "forte_contradiz_sla mel_has_frt_estourado mel_has_ttr_estourado f =
     (let n = normalize_for_contradiction f in
      if contains ''fora do sla'' n \<or> contains ''fora sla'' n then True
      else if contains ''ttr'' n \<and> contains ''frt'' n then True
      else if mel_has_frt_estourado \<and> frt_dentro n then True
      else if mel_has_ttr_estourado \<and> ttr_dentro n then True
      else False)"

text \<open>Lines 1299 and 1301: what is removed from the improvements.\<close>

definition frt_estourado_removed :: "string \<Rightarrow> bool" where
  "frt_estourado_removed n =
     (contains ''frt estourado'' n \<or> (contains ''first response'' n \<and> contains ''estourado'' n))"

definition ttr_estourado_removed :: "string \<Rightarrow> bool" where
  "ttr_estourado_removed n =
     (contains ''ttr estourado'' n
      \<or> ((contains ''time to resolution'' n \<or> contains ''time to close'' n) \<and> contains ''estourado'' n))"

text \<open>Lines 1305 and 1320; 1310; 1315.\<close>

definition csat_baixo :: "string \<Rightarrow> bool" where
  "csat_baixo n =
     (contains ''csat baix'' n \<or> contains ''satisfaction 1'' n \<or> contains ''satisfaction 2'' n)"

definition csat_alto_removed :: "string \<Rightarrow> bool" where
  "csat_alto_removed n =
     (contains ''csat'' n \<and>
      (contains ''entre 4'' n \<or> contains ''entre 5'' n \<or> contains ''alto'' n
       \<or> contains ''satisfaction 4'' n \<or> contains ''satisfaction 5'' n))"

definition csat_alto :: "string \<Rightarrow> bool" where
  "csat_alto n =
     (contains ''csat'' n \<and>
      (contains ''entre 4'' n \<or> contains ''entre 5'' n \<or> contains ''entre 6'' n
       \<or> contains ''alto'' n \<or> contains ''satisfaction 4'' n \<or> contains ''satisfaction 5'' n))"

text \<open>Lines 1325, 1330, 1334, 1336. The last literal of line 1334 has an accented letter.\<close>

definition tags_neg :: "string \<Rightarrow> bool" where
  "tags_neg n = (contains ''tags'' n \<or> contains ''categorias'' n)"

definition tags_adequado :: "string \<Rightarrow> bool" where
  "tags_adequado n =
     (contains ''uso adequado'' n \<and> (contains ''tags'' n \<or> contains ''categorias'' n))"

definition tapi_mel :: "string \<Rightarrow> bool" where
  "tapi_mel n =
     (contains ''tapi'' n \<or> contains ''tolerancia'' n
      \<or> contains (''toler'' @ [CHR 0xE2] @ ''ncia'') n)"

definition tapi_entre :: "string \<Rightarrow> bool" where
  "tapi_entre n = (contains ''tapi'' n \<and> (contains ''entre'' n \<or> contains ''esta entre'' n))"

text \<open>\<open>any(test(nf(x)) for x in xs)\<close> and \<open>[x for x in xs if not test(nf(x))]\<close>.\<close>

definition any_nf :: "(string \<Rightarrow> bool) \<Rightarrow> string list \<Rightarrow> bool" where
  "any_nf test xs = list_ex (\<lambda>x. test (normalize_for_contradiction x)) xs"

definition drop_nf :: "(string \<Rightarrow> bool) \<Rightarrow> string list \<Rightarrow> string list" where
  "drop_nf test xs = filter (\<lambda>x. \<not> test (normalize_for_contradiction x)) xs"

text \<open>\<open>_remove_contradictions\<close> (lines 1254--1338): the pair \<open>(mel, fort)\<close>.\<close>

definition remove_contradictions :: "string list \<Rightarrow> string list \<Rightarrow> string list \<times> string list" where
  "remove_contradictions melhorias fortes =
     (if melhorias = [] \<and> fortes = [] then (melhorias, fortes)
      else
        (let mel = melhorias;
             fort = fortes;
             mel_has_frt_estourado = any_nf frt_estourado mel;
             mel_has_ttr_estourado = any_nf ttr_estourado mel;
             fort = filter (\<lambda>f. \<not> forte_contradiz_sla mel_has_frt_estourado mel_has_ttr_estourado f) fort;
             fort_has_frt_dentro = any_nf frt_dentro fort;
             fort_has_ttr_dentro = any_nf ttr_dentro fort;
             mel = (if fort_has_frt_dentro then drop_nf frt_estourado_removed mel else mel);
             mel = (if fort_has_ttr_dentro then drop_nf ttr_estourado_removed mel else mel);
             mel_has_csat_baixo = any_nf csat_baixo mel;
             fort = (if mel_has_csat_baixo then drop_nf csat_alto_removed fort else fort);
             fort_has_csat_alto = any_nf csat_alto fort;
             mel = (if fort_has_csat_alto then drop_nf csat_baixo mel else mel);
             mel_has_tags_neg = any_nf tags_neg mel;
             fort = (if mel_has_tags_neg then drop_nf tags_adequado fort else fort);
             mel_has_tapi = any_nf tapi_mel mel;
             fort = (if mel_has_tapi then drop_nf tapi_entre fort else fort)
         in (mel, fort)))"


text \<open>
  Two auxiliary forms used in the proofs: the first filter of \<open>_remove_contradictions\<close>
  (line 1287), and the function without the two removals of lines 1298--1301, which are
  shown below to remove nothing.
\<close>

definition sla_filter :: "string list \<Rightarrow> string list \<Rightarrow> string list" where
  "sla_filter mel fort =
     filter (\<lambda>f. \<not> forte_contradiz_sla (any_nf frt_estourado mel) (any_nf ttr_estourado mel) f) fort"

definition resolved :: "string list \<Rightarrow> string list \<Rightarrow> string list \<times> string list" where
  "resolved mel0 fort0 =
     (let fort1 = sla_filter mel0 fort0;
          fort2 = (if any_nf csat_baixo mel0 then drop_nf csat_alto_removed fort1 else fort1);
          mel3 = (if any_nf csat_alto fort2 then drop_nf csat_baixo mel0 else mel0);
          fort3 = (if any_nf tags_neg mel3 then drop_nf tags_adequado fort2 else fort2);
          fort4 = (if any_nf tapi_mel mel3 then drop_nf tapi_entre fort3 else fort3)
      in (mel3, fort4))"

section \<open>The request executor\<close>

text \<open>
  The backend is a sequence of responses: the \<open>i\<close>-th HTTP call of one run of
  \<open>get_issue_note_from_ollama\<close> receives \<open>env i\<close>. A call raises \<open>ConnectionError\<close>
  or \<open>Timeout\<close>, raises something else, or returns a status code with a body;
  the body is \<open>None\<close> when \<open>r.json()\<close> raises.
\<close>

datatype response =
    ConnectionError
  | Timeout
  | RequestError
  | Response nat "pyval option"

datatype shape = Generate | Chat | Completions

text \<open>The calls a run makes, in order: the discovery call, or a POST with its attempt number.\<close>

datatype request = GetTags | Post shape string nat

definition transient :: "response \<Rightarrow> bool" where
  "transient r = (r = ConnectionError \<or> r = Timeout)"

text \<open>
  The code point U+2014 (an em dash) is outside the Latin-1 range of the string model; in
  the three texts that contain it (two failure messages and the default comment of the
  controller), it stands as its UTF-8 bytes. No operation of the
  model looks inside these texts beyond their first characters, and they are shorter
  than every truncation applied to them.
\<close>

definition em_dash :: string where
  "em_dash = [CHR 0xE2, CHR 0x80, CHR 0x94]"

definition nao_avaliado :: string where
  "nao_avaliado = ''N'' @ [CHR 0xE3] @ ''o avaliado''"

text \<open>\<open>_fail\<close> (lines 972--973) and the five messages it is called with.\<close>

definition fail :: "string \<Rightarrow> judgement" where
  "fail msg = \<lparr>nota = None, comentario = PStr msg\<rparr>"

definition msg_not_configured :: string where
  "msg_not_configured = nao_avaliado @ '' (OLLAMA_URL n'' @ [CHR 0xE3] @ ''o configurado)''"

definition msg_not_daemon :: string where
  "msg_not_daemon = nao_avaliado @ '' (Ollama: URL n'' @ [CHR 0xE3] @ ''o '' @ [CHR 0xE9]
     @ '' o daemon Ollama '' @ em_dash @ '' verifique OLLAMA_URL, ex: http://127.0.0.1:11434)''"

definition msg_unavailable :: string where
  "msg_unavailable = nao_avaliado @ '' (Ollama indispon'' @ [CHR 0xED] @ ''vel ou timeout)''"

definition msg_not_found :: string where
  "msg_not_found = nao_avaliado
     @ '' (Ollama: /api/generate, /api/chat e /v1/chat/completions n'' @ [CHR 0xE3]
     @ ''o encontrados '' @ em_dash @ '' verifique OLLAMA_URL, ex: http://127.0.0.1:11434)''"

definition msg_no_model :: string where
  "msg_no_model = nao_avaliado
     @ '' (Ollama sem modelo compat'' @ [CHR 0xED] @ ''vel ou resposta inv'' @ [CHR 0xE1] @ ''lida)''"

subsection \<open>Candidate models\<close>

text \<open>
  \<open>(v or w or '').strip()\<close> and similar: the text of a value that must be a string when
  it is truthy; \<open>None\<close> is the \<open>AttributeError\<close> of \<open>.strip()\<close> on another value.
\<close>

definition str_or_empty :: "pyval \<Rightarrow> string option" where
  "str_or_empty v =
     (if \<not> truthy v then Some [] else (case v of PStr s \<Rightarrow> Some s | _ \<Rightarrow> None))"

text \<open>
  Lines 987--990, the loop over the items of \<open>models\<close>: the names appended so far; an item
  that raises ends the loop (the handler of line 993 passes) and keeps those names.
\<close>

fun collect_installed :: "pyval list \<Rightarrow> string list \<Rightarrow> string list" where
  "collect_installed [] models_installed = models_installed"
| "collect_installed (item # items) models_installed =
     (case item of
        PDict kvs \<Rightarrow>
          (case str_or_empty (if truthy (dict_get kvs ''name'') then dict_get kvs ''name''
                              else dict_get kvs ''model'') of
             None \<Rightarrow> models_installed
           | Some s \<Rightarrow>
               (let name = strip s in
                if name \<noteq> [] \<and> name \<notin> set models_installed
                then collect_installed items (models_installed @ [name])
                else collect_installed items models_installed))
      | _ \<Rightarrow> models_installed)"

text \<open>
  Lines 985--990 on the body of a 200 response: only a dictionary whose \<open>models\<close> is a
  list yields names; every other body raises before the first name or has no item.
\<close>

definition installed_of_body :: "pyval option \<Rightarrow> string list" where
  "installed_of_body body =
     (case body of
        Some (PDict kvs) \<Rightarrow>
          (case dict_get kvs ''models'' of PList items \<Rightarrow> collect_installed items [] | _ \<Rightarrow> [])
      | _ \<Rightarrow> [])"

text \<open>
  Lines 980--994, the discovery call: \<open>Inl\<close> is the early \<open>return _fail(...)\<close>, \<open>Inr\<close> the
  list \<open>models_installed\<close> with which the function goes on.
\<close>

definition discover :: "response \<Rightarrow> judgement + string list" where
  "discover r =
     (case r of
        ConnectionError \<Rightarrow> Inl (fail msg_unavailable)
      | Timeout \<Rightarrow> Inl (fail msg_unavailable)
      | RequestError \<Rightarrow> Inr []
      | Response status body \<Rightarrow>
          if status = 404 then Inl (fail msg_not_daemon)
          else if status = 200 then Inr (installed_of_body body)
          else Inr [])"

text \<open>Line 978: \<open>(model or 'llama3.2').strip()\<close>.\<close>

definition default_model :: "string option \<Rightarrow> string" where
  "default_model model =
     strip (case model of None \<Rightarrow> ''llama3.2'' | Some m \<Rightarrow> if m = [] then ''llama3.2'' else m)"

text \<open>Line 1020.\<close>

definition fallback_models :: "string \<Rightarrow> string list" where
  "fallback_models model =
     [model, ''llama3.2'', ''llama3.1'', ''llama3'', ''qwen2.5:0.5b'', ''qwen2.5'', ''mistral'',
      ''gemma2:2b'']"

text \<open>Lines 1021--1027: the loop that fills \<open>models_to_try\<close> (\<open>seen\<close> holds the same names).\<close>

fun add_unseen :: "string list \<Rightarrow> string list \<Rightarrow> string list" where
  "add_unseen [] models_to_try = models_to_try"
| "add_unseen (name # names) models_to_try =
     (let n = strip name in
      if n \<noteq> [] \<and> n \<notin> set models_to_try then add_unseen names (models_to_try @ [n])
      else add_unseen names models_to_try)"

definition models_to_try :: "string list \<Rightarrow> string \<Rightarrow> string list" where
  "models_to_try models_installed model = add_unseen (models_installed @ fallback_models model) []"

subsection \<open>One endpoint shape\<close>

text \<open>
  The text a 200 response carries for a shape (lines 1045--1046, 1078--1080, 1112--1120):
  \<open>Raised\<close> when the extraction raises, \<open>Break\<close> for the \<open>error\<close> field of the third
  shape, \<open>NoChoices\<close> when \<open>choices\<close> is empty, else the stripped text.
\<close>

datatype extracted = Raised | Break | NoChoices | Content string

definition content_of :: "pyval \<Rightarrow> extracted" where
  "content_of v = (case str_or_empty v of None \<Rightarrow> Raised | Some s \<Rightarrow> Content (strip s))"

definition message_content :: "pyval \<Rightarrow> extracted" where
  "message_content msg =
     (if \<not> truthy msg then Content (strip [])
      else (case msg of PDict kvs \<Rightarrow> content_of (dict_get kvs ''content'') | _ \<Rightarrow> Raised))"

definition extract_content :: "shape \<Rightarrow> pyval option \<Rightarrow> extracted" where
  "extract_content sh body =
     (case body of
        Some (PDict data) \<Rightarrow>
          (case sh of
             Generate \<Rightarrow> content_of (dict_get data ''response'')
           | Chat \<Rightarrow> message_content (dict_get data ''message'')
           | Completions \<Rightarrow>
               if truthy (dict_get data ''error'') then Break
               else if \<not> truthy (dict_get data ''choices'') then NoChoices
               else (case dict_get data ''choices'' of
                       PList (PDict choice # _) \<Rightarrow> message_content (dict_get choice ''message'')
                     | _ \<Rightarrow> Raised))
      | _ \<Rightarrow> Raised)"

text \<open>Line 1049: \<open>result and result.get('nota') and 1 <= result.get('nota') <= 5\<close>.\<close>

definition accepted :: "judgement option \<Rightarrow> bool" where
  "accepted result =
     (case result of
        None \<Rightarrow> False
      | Some r \<Rightarrow> (case nota r of None \<Rightarrow> False | Some n \<Rightarrow> n \<noteq> 0 \<and> 1 \<le> n \<and> n \<le> 5))"

definition max_retries :: nat where
  "max_retries = 4"

text \<open>
  The state of a run: \<open>got_404\<close> and the calls made so far. A loop gives \<open>Some r\<close> when
  the function returns \<open>r\<close> inside it.
\<close>

type_synonym run_state = "bool \<times> request list"

text \<open>
  One of the three retry loops (lines 1034--1060, 1062--1094, 1096--1134) from a given
  attempt on: the list holds the attempt numbers still to run.
\<close>

fun attempts :: "pylib \<Rightarrow> (nat \<Rightarrow> response) \<Rightarrow> shape \<Rightarrow> string \<Rightarrow> nat list \<Rightarrow> run_state
    \<Rightarrow> judgement option \<times> run_state" where
  "attempts lib env sh m [] st = (None, st)"
| "attempts lib env sh m (attempt # rest) (got_404, calls) =
     (let calls' = calls @ [Post sh m attempt] in
      case env (length calls) of
        ConnectionError \<Rightarrow>
          if attempt \<ge> max_retries then (Some (fail msg_unavailable), got_404, calls')
          else attempts lib env sh m rest (got_404, calls')
      | Timeout \<Rightarrow>
          if attempt \<ge> max_retries then (Some (fail msg_unavailable), got_404, calls')
          else attempts lib env sh m rest (got_404, calls')
      | RequestError \<Rightarrow> (None, got_404, calls')
      | Response status body \<Rightarrow>
          if status = 404 then (None, True, calls')
          else if status = 200 then
            (case extract_content sh body of
               Raised \<Rightarrow> (None, got_404, calls')
             | Break \<Rightarrow> (None, got_404, calls')
             | NoChoices \<Rightarrow> attempts lib env sh m rest (got_404, calls')
             | Content content \<Rightarrow>
                 if content \<noteq> [] then
                   (case parse_ollama_nota_response lib (PStr content) of
                      Inl e \<Rightarrow> (None, got_404, calls')
                    | Inr result \<Rightarrow>
                        if accepted result then (result, got_404, calls')
                        else attempts lib env sh m rest (got_404, calls'))
                 else attempts lib env sh m rest (got_404, calls'))
          else attempts lib env sh m rest (got_404, calls'))"

text \<open>Lines 1029--1134: the three shapes for each model, in order.\<close>

fun models_loop :: "pylib \<Rightarrow> (nat \<Rightarrow> response) \<Rightarrow> string list \<Rightarrow> run_state
    \<Rightarrow> judgement option \<times> run_state" where
  "models_loop lib env [] st = (None, st)"
| "models_loop lib env (m # ms) st =
     (if m = [] then models_loop lib env ms st
      else
        (case attempts lib env Generate (strip m) [0..<max_retries + 1] st of
           (Some r, st1) \<Rightarrow> (Some r, st1)
         | (None, st1) \<Rightarrow>
             (case attempts lib env Chat (strip m) [0..<max_retries + 1] st1 of
                (Some r, st2) \<Rightarrow> (Some r, st2)
              | (None, st2) \<Rightarrow>
                  (case attempts lib env Completions (strip m) [0..<max_retries + 1] st2 of
                     (Some r, st3) \<Rightarrow> (Some r, st3)
                   | (None, st3) \<Rightarrow> models_loop lib env ms st3))))"

text \<open>
  The run of \<open>get_issue_note_from_ollama\<close> around its calls: the judgment returned and the
  calls made, when the context of the ticket (lines 995--1003) is built without an
  exception. The text of the context and of the prompt (lines 1006--1018) influences
  neither; the function with the construction of the context is
  \<open>get_issue_note_from_ollama_issue\<close> below.
\<close>

definition get_issue_note_from_ollama ::
  "pylib \<Rightarrow> (nat \<Rightarrow> response) \<Rightarrow> string option \<Rightarrow> string option \<Rightarrow> judgement \<times> request list" where
  "get_issue_note_from_ollama lib env ollama_url model =
     (if (case ollama_url of None \<Rightarrow> True | Some u \<Rightarrow> u = [] \<or> strip u = [])
      then (fail msg_not_configured, [])
      else
        (case discover (env 0) of
           Inl r \<Rightarrow> (r, [GetTags])
         | Inr models_installed \<Rightarrow>
             (case models_loop lib env (models_to_try models_installed (default_model model))
                     (False, [GetTags]) of
                (Some r, got_404, calls) \<Rightarrow> (r, calls)
              | (None, got_404, calls) \<Rightarrow>
                  (fail (if got_404 then msg_not_found else msg_no_model), calls))))"

subsection \<open>The context of the ticket\<close>

text \<open>
  The ticket is the JSON value that Jira returned. Lines 790--791 of
  \<open>_issue_context_for_ollama\<close>, \<open>fields = issue.get('fields', {})\<close> and
  \<open>(fields.get('summary') or '').strip()\<close> with its default for an empty text: the
  summary, or the \<open>AttributeError\<close> of \<open>.get\<close> on a value that is not a dictionary and of
  \<open>.strip()\<close> on a truthy value that is not a string.
\<close>

definition issue_fields :: "pyval \<Rightarrow> exn + (string \<times> pyval) list" where
  "issue_fields issue =
     (case issue of
        PDict kvs \<Rightarrow>
          (case map_of kvs ''fields'' of
             None \<Rightarrow> Inr []
           | Some (PDict kvs') \<Rightarrow> Inr kvs'
           | Some _ \<Rightarrow> Inl AttributeError)
      | _ \<Rightarrow> Inl AttributeError)"

definition issue_summary :: "pyval \<Rightarrow> exn + string" where
  "issue_summary issue =
     (case issue_fields issue of
        Inl e \<Rightarrow> Inl e
      | Inr kvs \<Rightarrow>
          (case str_or_empty (dict_get kvs ''summary'') of
             None \<Rightarrow> Inl AttributeError
           | Some s \<Rightarrow>
               Inr (if strip s = [] then ''(sem t'' @ [CHR 0xED] @ ''tulo)'' else strip s)))"

text \<open>
  Lines 995--1003, the construction of the context: \<open>Some e\<close> when it raises \<open>e\<close>. What
  follows the summary (lines 792--814 and 996--1003: the other fields of the ticket, the
  comments, the SLAs asked of the ticket collaborator) is the parameter \<open>rest\<close>, the
  exception that part raises on the ticket, if any. None of these lines is inside a
  \<open>try\<close>.
\<close>

definition build_context :: "(pyval \<Rightarrow> exn option) \<Rightarrow> pyval \<Rightarrow> exn option" where
  "build_context rest issue =
     (case issue_summary issue of Inl e \<Rightarrow> Some e | Inr s \<Rightarrow> rest issue)"

text \<open>
  \<open>get_issue_note_from_ollama\<close> with its ticket: \<open>Inl e\<close> when the function raises \<open>e\<close>,
  else the judgment returned and the calls made. The context is built after the
  discovery call and before the first POST.
\<close>

definition get_issue_note_from_ollama_issue ::
  "pylib \<Rightarrow> (nat \<Rightarrow> response) \<Rightarrow> (pyval \<Rightarrow> exn option) \<Rightarrow> pyval \<Rightarrow> string option
    \<Rightarrow> string option \<Rightarrow> exn + judgement \<times> request list" where
  "get_issue_note_from_ollama_issue lib env rest issue ollama_url model =
     (if (case ollama_url of None \<Rightarrow> True | Some u \<Rightarrow> u = [] \<or> strip u = [])
      then Inr (fail msg_not_configured, [])
      else
        (case discover (env 0) of
           Inl r \<Rightarrow> Inr (r, [GetTags])
         | Inr models_installed \<Rightarrow>
             (case build_context rest issue of
                Some e \<Rightarrow> Inl e
              | None \<Rightarrow>
                  (case models_loop lib env (models_to_try models_installed (default_model model))
                          (False, [GetTags]) of
                     (Some r, got_404, calls) \<Rightarrow> Inr (r, calls)
                   | (None, got_404, calls) \<Rightarrow>
                       Inr (fail (if got_404 then msg_not_found else msg_no_model), calls)))))"


subsection \<open>Auxiliary notions for the statements and proofs\<close>

text \<open>A list without its repetitions, each element at its first occurrence.\<close>

fun first_seen :: "'a list \<Rightarrow> 'a list" where
  "first_seen [] = []"
| "first_seen (x # xs) = x # filter (\<lambda>y. y \<noteq> x) (first_seen xs)"

text \<open>
  A call that is the last attempt of a retry loop and is answered by a connection error
  or a timeout; a stretch of calls, the first of them the \<open>k\<close>-th of the run, without one.
\<close>

definition final_failure :: "request \<Rightarrow> response \<Rightarrow> bool" where
  "final_failure rq rs = ((\<exists>sh m. rq = Post sh m max_retries) \<and> transient rs)"

fun quiet :: "(nat \<Rightarrow> response) \<Rightarrow> nat \<Rightarrow> request list \<Rightarrow> bool" where
  "quiet env k [] = True"
| "quiet env k (rq # rqs) = (\<not> final_failure rq (env k) \<and> quiet env (Suc k) rqs)"

text \<open>
  The invariant of the loops: the calls only grow, and no call but the last one of a run
  that returns the unavailable judgment is such a final failure.
\<close>

definition run_ok :: "(nat \<Rightarrow> response) \<Rightarrow> request list \<Rightarrow> judgement option \<times> run_state \<Rightarrow> bool" where
  "run_ok env calls out =
     (case out of (res, got_404, calls') \<Rightarrow>
        (\<exists>ext. calls' = calls @ ext \<and>
           (res = Some (fail msg_unavailable) \<longrightarrow> quiet env (length calls) (butlast ext)) \<and>
           (res \<noteq> Some (fail msg_unavailable) \<longrightarrow> quiet env (length calls) ext)))"

text \<open>An environment for the examples: the discovery call gets \<open>first\<close>, every POST \<open>rest\<close>.\<close>

definition env_of :: "response \<Rightarrow> response \<Rightarrow> nat \<Rightarrow> response" where
  "env_of first rest i = (if i = 0 then first else rest)"

text \<open>A result of a loop is an accepted rating or the unavailable judgment; a failure judgment.\<close>

definition ret_ok :: "judgement option \<times> run_state \<Rightarrow> bool" where
  "ret_ok out = (case fst out of None \<Rightarrow> True
      | Some r \<Rightarrow> nota_is_evaluated r \<or> r = fail msg_unavailable)"

definition not_evaluated :: "judgement \<Rightarrow> bool" where
  "not_evaluated j = (nota j = None \<and> (\<exists>rest. comentario j = PStr (nao_avaliado @ rest)))"

text \<open>
  Names as the loops store them: distinct, non-empty and stripped; the non-empty stripped
  names of a list.
\<close>

definition clean :: "string list \<Rightarrow> bool" where
  "clean xs = (distinct xs \<and> (\<forall>x\<in>set xs. x \<noteq> [] \<and> strip x = x))"

definition names_of :: "string list \<Rightarrow> string list" where
  "names_of names = filter (\<lambda>n. n \<noteq> []) (map strip names)"

text \<open>A discovery response that lists one installed model, for the examples.\<close>

definition tags_mistral :: response where
  "tags_mistral = Response 200 (Some (PDict [(''models'', PList [PDict [(''name'', PStr ''mistral'')]])]))"


section \<open>The rule-based scorer\<close>

text \<open>
  A ticket, as far as the engine reads it, by what the collaborator's helpers return on
  it: its key (empty when absent), \<open>fields.get('summary') or ''\<close>, the plain text of
  the description, \<open>_duration_to_seconds\<close> of the first-response field, and the whole
  seconds from creation to resolution when both dates parse.
\<close>

record issue =
  issue_key :: string
  summary :: string
  description :: string
  sec_first :: "int option"
  sec_resol :: "int option"

text \<open>
  \<open>get_issue_note_rule_based\<close> (lines 712--785). The points are counted in tenths: the
  source adds the floats 2.0, 1.3, ... and compares the sum with 3.5, 2.8, 2.0 and 1.2,
  and on each of the hundred combinations of points the float comparison gives what the
  exact one gives. Hours are compared as seconds.
\<close>

definition pts_texto :: "issue \<Rightarrow> int" where
  "pts_texto i =
     (let len_title = length (strip (summary i)); len_desc = length (description i) in
      if len_title \<ge> 20 \<and> len_desc \<ge> 200 then 20
      else if len_title \<ge> 10 \<and> len_desc \<ge> 50 then 13
      else if len_title \<ge> 5 \<or> len_desc \<ge> 20 then 7
      else 2)"

definition pts_resposta :: "issue \<Rightarrow> int" where
  "pts_resposta i =
     (case sec_first i of
        None \<Rightarrow> 3
      | Some s \<Rightarrow>
          if s \<ge> 0 then
            (if s \<le> 1 * 3600 then 15 else if s \<le> 4 * 3600 then 12
             else if s \<le> 24 * 3600 then 8 else 4)
          else 3)"

definition pts_solucao :: "issue \<Rightarrow> int" where
  "pts_solucao i =
     (case sec_resol i of
        None \<Rightarrow> 3
      | Some s \<Rightarrow>
          if s \<le> 24 * 3600 then 15 else if s \<le> 72 * 3600 then 12
          else if s \<le> 168 * 3600 then 8 else 5)"

definition get_issue_note_rule_based :: "issue \<Rightarrow> judgement" where
  "get_issue_note_rule_based i =
     (let total = pts_texto i + pts_resposta i + pts_solucao i in
      if total \<ge> 35 then \<lparr>nota = Some 5, comentario = PStr (take 200 (''Alto: texto completo, resposta e solu'' @ [CHR 0xE7] @ [CHR 0xE3] @ ''o r'' @ [CHR 0xE1] @ ''pidas.''))\<rparr>
      else if total \<ge> 28 then \<lparr>nota = Some 4, comentario = PStr (take 200 (''Bom: atendimento e solu'' @ [CHR 0xE7] @ [CHR 0xE3] @ ''o dentro do esperado.''))\<rparr>
      else if total \<ge> 20 then \<lparr>nota = Some 3, comentario = PStr (take 200 (''M'' @ [CHR 0xE9] @ ''dio: algum crit'' @ [CHR 0xE9] @ ''rio (texto, resposta ou solu'' @ [CHR 0xE7] @ [CHR 0xE3] @ ''o) pode melhorar.''))\<rparr>
      else if total \<ge> 12 then \<lparr>nota = Some 2, comentario = PStr (take 200 (''Abaixo: texto incompleto ou tempos de resposta/solu'' @ [CHR 0xE7] @ [CHR 0xE3] @ ''o altos.''))\<rparr>
      else \<lparr>nota = Some 1, comentario = PStr (take 200 (''Baixo: ticket vago ou sem dados de resposta/solu'' @ [CHR 0xE7] @ [CHR 0xE3] @ ''o.''))\<rparr>)"

section \<open>The judgment cache and the evaluation loop controller\<close>

text \<open>
  The table \<open>notas\<close>: for an \<open>issue_key\<close>, its \<open>nota\<close> and \<open>comentario\<close>. Only
  \<open>_save_notas_to_db\<close> writes it, with stripped non-empty keys, and those are the keys
  the model of \<open>_load_notas_from_db\<close> reads. The storage itself is taken to work (no
  SQLite error but the ones the written values cause).
\<close>

type_synonym notas_db = "string \<rightharpoonup> (int option \<times> string)"

text \<open>A dictionary from ticket key to judgment, in insertion order.\<close>

type_synonym notas = "(string \<times> judgement) list"

text \<open>\<open>_load_notas_from_db\<close> (lines 2020--2043), looked up at a key.\<close>

definition load_notas_from_db :: "notas_db \<Rightarrow> string \<Rightarrow> judgement option" where
  "load_notas_from_db db k =
     (if k = [] \<or> strip k \<noteq> k then None
      else (case db k of
          None \<Rightarrow> None
        | Some (n, c) \<Rightarrow>
            Some \<lparr>nota = (case n of None \<Rightarrow> None
                           | Some v \<Rightarrow> if v < 1 \<or> v > 5 then None else Some v),
                  comentario = PStr (take 500 c)\<rparr>))"

text \<open>An integer that SQLite stores; a larger one makes \<open>execute\<close> raise.\<close>

definition sqlite_int :: "int option \<Rightarrow> bool" where
  "sqlite_int n = (case n of None \<Rightarrow> True | Some v \<Rightarrow> - (2 ^ 63) \<le> v \<and> v < 2 ^ 63)"

text \<open>
  The loop of \<open>_save_notas_to_db\<close> (lines 2053--2061): \<open>None\<close> when an \<open>execute\<close> or
  the slice of the comment raises.
\<close>

fun save_rows :: "pylib \<Rightarrow> notas \<Rightarrow> notas_db \<Rightarrow> notas_db option" where
  "save_rows lib [] db = Some db"
| "save_rows lib ((key, v) # rest) db =
     (if key = [] \<or> strip key = [] then save_rows lib rest db
      else (case or_empty_slice lib 500 (comentario v) of
          Inr (PStr c) \<Rightarrow>
            if sqlite_int (nota v) then save_rows lib rest (db(strip key \<mapsto> (nota v, c)))
            else None
        | _ \<Rightarrow> None))"

text \<open>
  \<open>_save_notas_to_db\<close> (lines 2046--2065): the handler passes, and what was executed
  before the exception is not committed.
\<close>

definition save_notas_to_db :: "pylib \<Rightarrow> notas \<Rightarrow> notas_db \<Rightarrow> notas_db" where
  "save_notas_to_db lib notas db =
     (if notas = [] then db
      else (case save_rows lib notas db of None \<Rightarrow> db | Some db' \<Rightarrow> db'))"

text \<open>
  The process-wide state: \<open>_last_result\<close> (its issues), \<open>_last_notas\<close>, the table, and
  the number of HTTP calls made to the backend so far.
\<close>

record session =
  last_result :: "issue list option"
  last_notas :: "notas option"
  notas_table :: notas_db
  n_calls :: nat

text \<open>
  The environment variables \<open>OLLAMA_URL\<close> and \<open>OLLAMA_MODEL\<close> (empty when unset), and
  \<open>int(OLLAMA_NOTAS_MAX_RETRIES)\<close> (5 when unset; the variable is taken to hold an integer).
\<close>

record config =
  ollama_url_env :: string
  ollama_model_env :: string
  max_tentativas :: int

text \<open>\<open>os.environ.get(..., '').strip() or None\<close>.\<close>

definition env_or_none :: "string \<Rightarrow> string option" where
  "env_or_none v = (if strip v = [] then None else Some (strip v))"

definition regras_prefix :: string where
  "regras_prefix = ''(regras, Ollama sem resposta) ''"

text \<open>The judgment of line 1960, from the one of the rule-based scorer.\<close>

definition regras_judgement :: "issue \<Rightarrow> judgement" where
  "regras_judgement i =
     (let r = get_issue_note_rule_based i in
      \<lparr>nota = nota r,
       comentario = PStr (take 200 (regras_prefix @
          (case comentario r of PStr c \<Rightarrow> c | _ \<Rightarrow> [])))\<rparr>)"

text \<open>
  The loop of \<open>_evaluate_one_issue\<close> (lines 1946--1958) with \<open>n\<close> tries left; a run of
  the executor that starts when \<open>k\<close> calls have been made reads the responses from
  \<open>env k\<close> on. \<open>None\<close> when no try gave a rating.
\<close>

fun tentativas :: "pylib \<Rightarrow> (nat \<Rightarrow> response) \<Rightarrow> string option \<Rightarrow> string option \<Rightarrow> nat \<Rightarrow> nat
    \<Rightarrow> judgement option \<times> nat" where
  "tentativas lib env url model 0 k = (None, k)"
| "tentativas lib env url model (Suc n) k =
     (case get_issue_note_from_ollama lib (\<lambda>i. env (k + i)) url model of
        (r, made) \<Rightarrow>
          if nota_is_evaluated r then (Some r, k + length made)
          else tentativas lib env url model n (k + length made))"

text \<open>\<open>_evaluate_one_issue\<close> (lines 1942--1960): the judgment and the calls made so far.\<close>

definition evaluate_one_issue ::
  "pylib \<Rightarrow> (nat \<Rightarrow> response) \<Rightarrow> config \<Rightarrow> issue \<Rightarrow> nat \<Rightarrow> judgement \<times> nat" where
  "evaluate_one_issue lib env cfg i k =
     (case tentativas lib env (env_or_none (ollama_url_env cfg))
             (env_or_none (ollama_model_env cfg)) (nat (max_tentativas cfg)) k of
        (Some r, k') \<Rightarrow> (r, k')
      | (None, k') \<Rightarrow> (regras_judgement i, k'))"

text \<open>\<open>d.get(k)\<close> and \<open>d[k] = v\<close> on a dictionary kept as a list of items.\<close>

definition notas_get :: "notas \<Rightarrow> string \<Rightarrow> judgement option" where
  "notas_get d k = map_of d k"

definition notas_set :: "string \<Rightarrow> judgement \<Rightarrow> notas \<Rightarrow> notas" where
  "notas_set k v d = AList.update k v d"

definition default_entry :: judgement where
  "default_entry = \<lparr>nota = None, comentario = PStr em_dash\<rparr>"

text \<open>\<open>k in d and _nota_is_evaluated(d[k])\<close>.\<close>

definition has_nota :: "(string \<Rightarrow> judgement option) \<Rightarrow> string \<Rightarrow> bool" where
  "has_nota d k = (case d k of None \<Rightarrow> False | Some e \<Rightarrow> nota_is_evaluated e)"

text \<open>
  Lines 1994--1999: the entry \<open>out[k]\<close> starts with; \<open>entry_or e d\<close> is \<open>e or d\<close> for
  an entry that is a non-empty dictionary when present.
\<close>

definition entry_or :: "judgement option \<Rightarrow> judgement \<Rightarrow> judgement" where
  "entry_or e d = (case e of Some v \<Rightarrow> v | None \<Rightarrow> d)"

definition initial_entry ::
  "bool \<Rightarrow> (string \<Rightarrow> judgement option) \<Rightarrow> (string \<Rightarrow> judgement option) \<Rightarrow> string \<Rightarrow> judgement" where
  "initial_entry force_reavaliar loaded cache k =
     (if \<not> force_reavaliar \<and> has_nota loaded k then entry_or (loaded k) default_entry
      else if \<not> force_reavaliar \<and> has_nota cache k then entry_or (cache k) default_entry
      else entry_or (loaded k) (entry_or (cache k) default_entry))"

text \<open>Lines 1991--1999.\<close>

fun initial_out ::
  "bool \<Rightarrow> (string \<Rightarrow> judgement option) \<Rightarrow> (string \<Rightarrow> judgement option) \<Rightarrow> string list \<Rightarrow> notas \<Rightarrow> notas" where
  "initial_out force_reavaliar loaded cache [] out = out"
| "initial_out force_reavaliar loaded cache (k # ks) out =
     initial_out force_reavaliar loaded cache ks
       (notas_set k (initial_entry force_reavaliar loaded cache k) out)"

text \<open>Lines 2000 and 2011: \<open>[k for k in keys if not _nota_is_evaluated(out[k])]\<close>.\<close>

definition keys_sem_nota :: "string list \<Rightarrow> notas \<Rightarrow> string list" where
  "keys_sem_nota keys out = filter (\<lambda>k. \<not> has_nota (notas_get out) k) keys"

text \<open>Lines 2003--2010: one pass over the keys without rating.\<close>

fun evaluate_keys ::
  "pylib \<Rightarrow> (nat \<Rightarrow> response) \<Rightarrow> config \<Rightarrow> (string \<Rightarrow> issue option) \<Rightarrow> string list
    \<Rightarrow> notas \<times> session \<Rightarrow> notas \<times> session" where
  "evaluate_keys lib env cfg issue_by_key [] st = st"
| "evaluate_keys lib env cfg issue_by_key (key # rest) (out, s) =
     (case issue_by_key key of
        None \<Rightarrow> evaluate_keys lib env cfg issue_by_key rest (out, s)
      | Some i \<Rightarrow>
          (case evaluate_one_issue lib env cfg i (n_calls s) of
             (result, k') \<Rightarrow>
               (let out' = notas_set key result out in
                evaluate_keys lib env cfg issue_by_key rest
                  (out', s\<lparr>last_notas := Some out',
                           notas_table := save_notas_to_db lib out' (notas_table s),
                           n_calls := k'\<rparr>))))"

text \<open>
  Lines 2002--2013, the loop \<open>while keys_sem_nota\<close>: \<open>None\<close> is a loop that never ends.
\<close>

partial_function (option) evaluate_passes ::
  "pylib \<Rightarrow> (nat \<Rightarrow> response) \<Rightarrow> config \<Rightarrow> (string \<Rightarrow> issue option) \<Rightarrow> string list
    \<Rightarrow> notas \<times> session \<Rightarrow> (notas \<times> session) option" where
  "evaluate_passes lib env cfg issue_by_key keys st =
     (if keys_sem_nota keys (fst st) = [] then Some st
      else evaluate_passes lib env cfg issue_by_key keys
             (evaluate_keys lib env cfg issue_by_key (keys_sem_nota keys (fst st)) st))"

declare evaluate_passes.simps [code]

text \<open>What the function returns: \<open>(None, message)\<close> or \<open>(out, None)\<close>.\<close>

datatype outcome = Error string | Notas notas

definition msg_busca :: string where
  "msg_busca = ''Fa'' @ [CHR 0xE7] @ ''a uma busca antes de calcular notas.''"

definition msg_configure :: string where
  "msg_configure = ''Configure OLLAMA_URL no .env (ex.: http://localhost:11434).''"

text \<open>Line 1984: the issues that have a key, with it.\<close>

definition task_list :: "issue list \<Rightarrow> (string \<times> issue) list" where
  "task_list issues = map (\<lambda>i. (issue_key i, i)) (filter (\<lambda>i. issue_key i \<noteq> []) issues)"

text \<open>Lines 1987 and 1988: the keys of the batch, and the issue of a key (the last one).\<close>

definition batch_keys :: "issue list \<Rightarrow> string list" where
  "batch_keys issues = map fst (task_list issues)"

definition issue_by_key :: "issue list \<Rightarrow> string \<Rightarrow> issue option" where
  "issue_by_key issues = map_of (rev (task_list issues))"

text \<open>Lines 1990 and 1992: \<open>loaded\<close> and \<open>cache\<close> of a run that is not forced.\<close>

definition loaded_of :: "session \<Rightarrow> string \<Rightarrow> judgement option" where
  "loaded_of s = load_notas_from_db (notas_table s)"

definition cache_of :: "session \<Rightarrow> string \<Rightarrow> judgement option" where
  "cache_of s = (case last_notas s of None \<Rightarrow> Map.empty | Some d \<Rightarrow> notas_get d)"

text \<open>
  \<open>_run_evaluate_all_until_complete\<close> (lines 1963--2017): what it returns and the state
  it leaves; \<open>None\<close> when it does not return.
\<close>

definition run_evaluate_all_until_complete ::
  "pylib \<Rightarrow> (nat \<Rightarrow> response) \<Rightarrow> config \<Rightarrow> bool \<Rightarrow> session \<Rightarrow> (outcome \<times> session) option" where
  "run_evaluate_all_until_complete lib env cfg force_reavaliar s =
     (case last_result s of
        None \<Rightarrow> Some (Error msg_busca, s)
      | Some issues \<Rightarrow>
          if issues = [] then Some (Error msg_busca, s)
          else if env_or_none (ollama_url_env cfg) = None then Some (Error msg_configure, s)
          else if task_list issues = [] then Some (Notas [], s)
          else
            (let keys = batch_keys issues;
                 loaded = (if force_reavaliar then Map.empty else loaded_of s);
                 cache = (if force_reavaliar then Map.empty else cache_of s);
                 out = initial_out force_reavaliar loaded cache keys []
             in case evaluate_passes lib env cfg (issue_by_key issues) keys (out, s) of
                  None \<Rightarrow> None
                | Some (out', s') \<Rightarrow>
                    Some (Notas out',
                          s'\<lparr>last_notas := Some out',
                             notas_table := save_notas_to_db lib out' (notas_table s')\<rparr>)))"

text \<open>
  For the statements: a ticket with a valid rating in the table or in memory, and the
  entry a run that is not forced takes for it.
\<close>

definition cached_nota :: "session \<Rightarrow> string \<Rightarrow> bool" where
  "cached_nota s k = (has_nota (loaded_of s) k \<or> has_nota (cache_of s) k)"

definition cached_entry :: "session \<Rightarrow> string \<Rightarrow> judgement" where
  "cached_entry s k = initial_entry False (loaded_of s) (cache_of s) k"

text \<open>
  The state after the loop of lines 2002--2013, as the proofs show it to be: at most one
  pass is made.
\<close>

definition after_passes :: "pylib \<Rightarrow> (nat \<Rightarrow> response) \<Rightarrow> config \<Rightarrow> bool \<Rightarrow> issue list \<Rightarrow> session \<Rightarrow> notas \<times> session" where
  "after_passes lib env cfg f issues s =
     (let keys = batch_keys issues;
          out = initial_out f (if f then Map.empty else loaded_of s) (if f then Map.empty else cache_of s) keys []
      in if keys_sem_nota keys out = [] then (out, s)
         else evaluate_keys lib env cfg (issue_by_key issues) (keys_sem_nota keys out) (out, s))"

subsection \<open>Sample data for the examples\<close>

definition sample_issue :: issue where
  "sample_issue =
     \<lparr>issue_key = ''T-1'', summary = [], description = [], sec_first = None, sec_resol = None\<rparr>"

definition sample_config :: config where
  "sample_config =
     \<lparr>ollama_url_env = ''http://127.0.0.1:11434'', ollama_model_env = [], max_tentativas = 5\<rparr>"

definition nota_5_ok :: judgement where
  "nota_5_ok = \<lparr>nota = Some 5, comentario = PStr ''ok''\<rparr>"

text \<open>A backend that answers 404 to every call.\<close>

definition env_404 :: "nat \<Rightarrow> response" where
  "env_404 i = Response 404 None"

text \<open>
  Sessions after a search that found the sample issue: nothing cached; a valid rating in
  memory; a valid rating in the table.
\<close>

definition session_fresh :: session where
  "session_fresh =
     \<lparr>last_result = Some [sample_issue], last_notas = None, notas_table = Map.empty, n_calls = 0\<rparr>"

definition session_cached :: session where
  "session_cached =
     \<lparr>last_result = Some [sample_issue], last_notas = Some [(''T-1'', nota_5_ok)],
      notas_table = Map.empty, n_calls = 0\<rparr>"

definition session_stored :: session where
  "session_stored =
     \<lparr>last_result = Some [sample_issue], last_notas = None,
      notas_table = [''T-1'' \<mapsto> (Some 5, ''ok'')], n_calls = 0\<rparr>"



section \<open>Properties of the rating parser\<close>

lemma digit_val_1_5: "is_1_5 d \<Longrightarrow> 1 \<le> digit_val d \<and> digit_val d \<le> 5"
  by (auto simp: is_1_5_def digit_val_def Let_def)

lemma match_nota_resumo_digit: "match_nota_resumo s = Some (d, g) \<Longrightarrow> is_1_5 d"
  by (auto simp: match_nota_resumo_def Let_def split: list.splits if_splits)

lemma match_nota_only_digit: "match_nota_only s = Some d \<Longrightarrow> is_1_5 d"
  by (auto simp: match_nota_only_def split: list.splits if_splits)

lemma parse_nota_line_evaluated: "parse_nota_line s = Some r \<Longrightarrow> nota_is_evaluated r"
  by (auto simp: parse_nota_line_def nota_is_evaluated_def split: option.splits prod.splits
      dest!: match_nota_resumo_digit match_nota_only_digit digit_val_1_5)

lemma parse_nota_lines_evaluated: "parse_nota_lines ls = Some r \<Longrightarrow> nota_is_evaluated r"
  by (induction ls) (auto split: option.splits dest: parse_nota_line_evaluated)

lemma search_b_Some: "search_b f prev s = Some d \<Longrightarrow> \<exists>p s'. f p s' = Some d"
  by (induction s arbitrary: prev) (auto split: option.splits)

lemma match_lone_digit_digit: "match_lone_digit p s = Some d \<Longrightarrow> is_1_5 d"
  by (auto simp: match_lone_digit_def split: list.splits if_splits)

lemma ok_judgement_evaluated: "is_1_5 d \<Longrightarrow> nota_is_evaluated (ok_judgement d)"
  by (auto simp: ok_judgement_def nota_is_evaluated_def dest: digit_val_1_5)

lemma try_patterns_evaluated: "try_patterns pats s = Some r \<Longrightarrow> nota_is_evaluated r"
  by (induction pats)
     (auto simp: ok_judgement_def nota_is_evaluated_def split: option.splits if_splits)

lemma try_chunks_evaluated: "try_chunks cs = Some r \<Longrightarrow> nota_is_evaluated r"
  by (induction cs)
     (auto split: option.splits dest!: search_b_Some match_lone_digit_digit ok_judgement_evaluated)

lemma parse_nota_last_resort_evaluated:
  "parse_nota_last_resort s = Some r \<Longrightarrow> nota_is_evaluated r"
  unfolding parse_nota_last_resort_def
  by (cases "try_patterns nota_patterns s")
     (auto simp del: try_chunks.simps dest: try_patterns_evaluated try_chunks_evaluated)

lemma clamp_1_5_range: "1 \<le> clamp_1_5 n \<and> clamp_1_5 n \<le> 5"
  by (simp add: clamp_1_5_def)

lemma parse_nota_fallback_evaluated:
  "parse_nota_fallback lib s = Inr (Some r) \<Longrightarrow> nota_is_evaluated r"
  unfolding parse_nota_fallback_def
  by (auto simp: Let_def nota_is_evaluated_def split: option.splits if_splits
      dest: parse_nota_last_resort_evaluated[unfolded nota_is_evaluated_def])

lemma nota_of_json_range: "nota_of_json lib v = Inr (Some n) \<Longrightarrow> 1 \<le> n \<and> n \<le> 5"
  by (auto simp: nota_of_json_def clamp_1_5_def split: if_splits sum.splits)

lemma parse_nota_json_range:
  "parse_nota_json lib s = Inr (Some r) \<Longrightarrow> \<exists>n. nota r = Some n \<and> 0 \<le> n \<and> n \<le> 5"
  unfolding parse_nota_json_def
  by (auto simp: Let_def split: sum.splits pyval.splits option.splits if_splits)

lemma parse_nota_json_zero:
  "parse_nota_json lib s = Inr (Some r) \<Longrightarrow> nota r = Some 0 \<Longrightarrow>
     \<exists>kvs. json_loads lib s = Inr (PDict kvs) \<and>
           nota_of_json lib (dict_get kvs ''nota'') = Inr None"
  unfolding parse_nota_json_def
  by (auto simp: Let_def split: sum.splits pyval.splits option.splits if_splits
      dest: nota_of_json_range)

lemma parse_nota_text_cases:
  assumes "parse_nota_text lib s = Inr (Some r)"
  shows "nota_is_evaluated r \<or>
         parse_nota_json lib (balanced_object (strip_fences s)) = Inr (Some r)"
  using assms unfolding parse_nota_text_def
  by (auto simp: Let_def split: option.splits sum.splits
      dest: parse_nota_line_evaluated parse_nota_lines_evaluated parse_nota_fallback_evaluated)

lemma parse_response_cases:
  assumes "parse_ollama_nota_response lib v = Inr (Some r)"
  shows "nota_is_evaluated r \<or>
         (\<exists>s. v = PStr s \<and>
              parse_nota_json lib (balanced_object (strip_fences (strip s))) = Inr (Some r))"
  using assms unfolding parse_ollama_nota_response_def
  by (auto split: pyval.splits if_splits dest: parse_nota_text_cases)

text \<open>
  C1 (as amended). Whenever \<open>_parse_ollama_nota_response\<close> returns a record, its rating
  is an integer from 0 to 5; the rating 0 comes only from the JSON strategy, for a decoded
  object whose \<open>nota\<close> is missing or not convertible.
\<close>

theorem parse_nota_rating_0_to_5:
  assumes "parse_ollama_nota_response lib v = Inr (Some r)"
  shows "\<exists>n. nota r = Some n \<and> 0 \<le> n \<and> n \<le> 5 \<and>
           (n = 0 \<longrightarrow>
              (\<exists>s kvs. v = PStr s \<and>
                 json_loads lib (balanced_object (strip_fences (strip s))) = Inr (PDict kvs) \<and>
                 nota_of_json lib (dict_get kvs ''nota'') = Inr None))"
proof -
  from parse_response_cases[OF assms] show ?thesis
  proof
    assume "nota_is_evaluated r"
    then show ?thesis by (auto simp: nota_is_evaluated_def split: option.splits)
  next
    assume "\<exists>s. v = PStr s \<and>
              parse_nota_json lib (balanced_object (strip_fences (strip s))) = Inr (Some r)"
    then obtain s where v: "v = PStr s"
      and j: "parse_nota_json lib (balanced_object (strip_fences (strip s))) = Inr (Some r)"
      by blast
    from parse_nota_json_range[OF j] obtain n where n: "nota r = Some n" "0 \<le> n" "n \<le> 5"
      by blast
    show ?thesis
    proof (cases "n = 0")
      case True
      with n parse_nota_json_zero[OF j] v show ?thesis by auto
    next
      case False
      with n show ?thesis by auto
    qed
  qed
qed

lemma parse_resolved_quickly:
  "parse_ollama_nota_response lib (PStr ''4 - resolved quickly'') =
     Inr (Some \<lparr>nota = Some 4, comentario = PStr ''resolved quickly''\<rparr>)"
  by code_simp

theorem parse_nota_rating_0_to_5_witness:
  "parse_ollama_nota_response sample_lib (PStr ''4 - resolved quickly'') =
     Inr (Some \<lparr>nota = Some 4, comentario = PStr ''resolved quickly''\<rparr>) \<and>
   (\<exists>n. nota \<lparr>nota = Some 4, comentario = PStr ''resolved quickly''\<rparr> = Some n \<and>
        0 \<le> n \<and> n \<le> 5)"
  using parse_nota_rating_0_to_5[OF parse_resolved_quickly, of sample_lib]
        parse_resolved_quickly[of sample_lib]
  by auto

text \<open>
  C1 as stated fails: on a JSON object without \<open>nota\<close> the parser returns a record
  whose rating is 0.
\<close>

theorem parse_nota_returns_zero:
  "parse_ollama_nota_response sample_lib (PStr ''{\"comentario\": \"x\"}'') =
     Inr (Some \<lparr>nota = Some 0, comentario = PStr ''x''\<rparr>)"
  by code_simp

lemma fenced_example_no_line:
  "parse_nota_line (strip fenced_example) = None"
  "parse_nota_lines (split_chr CHR 0x0A (strip fenced_example)) = None"
  by code_simp+

lemma fenced_example_object:
  "balanced_object (strip_fences (strip fenced_example)) = ''{\"nota\": 5, \"comentario\": \"ok\"}''"
  by code_simp

lemma no_idea_no_line:
  "parse_nota_line (strip ''no idea'') = None"
  "parse_nota_lines (split_chr CHR 0x0A (strip ''no idea'')) = None"
  "balanced_object (strip_fences (strip ''no idea'')) = ''no idea''"
  "search match_nota_key ''no idea'' = None"
  "parse_nota_last_resort ''no idea'' = None"
  by code_simp+

text \<open>
  C9. The three examples of the specification, for every library whose \<open>json.loads\<close>
  decodes the object of the second example as CPython does and rejects \<open>no idea\<close>.
\<close>

theorem parse_spec_examples:
  assumes "json_loads lib ''{\"nota\": 5, \"comentario\": \"ok\"}'' =
             Inr (PDict [(''nota'', PInt 5), (''comentario'', PStr ''ok'')])"
    and "json_loads lib ''no idea'' = Inl JSONDecodeError"
  shows "parse_ollama_nota_response lib (PStr ''4 - resolved quickly'') =
           Inr (Some \<lparr>nota = Some 4, comentario = PStr ''resolved quickly''\<rparr>) \<and>
         parse_ollama_nota_response lib (PStr fenced_example) =
           Inr (Some \<lparr>nota = Some 5, comentario = PStr ''ok''\<rparr>) \<and>
         parse_ollama_nota_response lib (PStr ''no idea'') = Inr None"
proof -
  have ne: "fenced_example \<noteq> []" by (simp add: fenced_example_def)
  have j: "parse_nota_json lib ''{\"nota\": 5, \"comentario\": \"ok\"}'' =
             Inr (Some \<lparr>nota = Some 5, comentario = PStr ''ok''\<rparr>)"
    by (simp add: parse_nota_json_def assms(1) dict_get_def nota_of_json_def
        or_empty_slice_def clamp_1_5_def)
  have 2: "parse_ollama_nota_response lib (PStr fenced_example) =
             Inr (Some \<lparr>nota = Some 5, comentario = PStr ''ok''\<rparr>)"
    by (simp add: parse_ollama_nota_response_def ne parse_nota_text_def
        fenced_example_no_line fenced_example_object j)
  have j3: "parse_nota_json lib ''no idea'' = Inr None"
    by (simp add: parse_nota_json_def assms(2) caught_def)
  have f3: "parse_nota_fallback lib ''no idea'' = Inr None"
    unfolding parse_nota_fallback_def by (simp only: no_idea_no_line option.case)
  have 3: "parse_ollama_nota_response lib (PStr ''no idea'') = Inr None"
    by (simp add: parse_ollama_nota_response_def parse_nota_text_def no_idea_no_line j3 f3)
  from parse_resolved_quickly 2 3 show ?thesis by blast
qed

theorem parse_spec_examples_witness:
  "parse_ollama_nota_response sample_lib (PStr ''4 - resolved quickly'') =
     Inr (Some \<lparr>nota = Some 4, comentario = PStr ''resolved quickly''\<rparr>) \<and>
   parse_ollama_nota_response sample_lib (PStr fenced_example) =
     Inr (Some \<lparr>nota = Some 5, comentario = PStr ''ok''\<rparr>) \<and>
   parse_ollama_nota_response sample_lib (PStr ''no idea'') = Inr None"
  by (rule parse_spec_examples) (simp_all add: sample_lib_def sample_loads_def)

section \<open>Properties of the contradiction resolver\<close>

lemma any_nf_iff: "any_nf t xs \<longleftrightarrow> (\<exists>x\<in>set xs. t (normalize_for_contradiction x))"
  by (simp add: any_nf_def list_ex_iff)

lemma set_drop_nf: "set (drop_nf t xs) = {x \<in> set xs. \<not> t (normalize_for_contradiction x)}"
  by (simp add: drop_nf_def)

lemma drop_nf_id: "\<not> any_nf t xs \<Longrightarrow> drop_nf t xs = xs"
  by (simp add: drop_nf_def any_nf_iff filter_id_conv)

lemma drop_nf_none: "\<not> any_nf t (drop_nf t xs)"
  by (simp add: any_nf_iff set_drop_nf)

lemma any_nf_mono: "set xs \<subseteq> set ys \<Longrightarrow> any_nf t xs \<Longrightarrow> any_nf t ys"
  by (auto simp: any_nf_iff)

lemma any_nf_weaken: "(\<And>n. t n \<Longrightarrow> u n) \<Longrightarrow> any_nf t xs \<Longrightarrow> any_nf u xs"
  by (auto simp: any_nf_iff)

lemma set_drop_nf_subset: "set (drop_nf t xs) \<subseteq> set xs"
  by (auto simp: set_drop_nf)

lemma frt_removed_imp: "frt_estourado_removed n \<Longrightarrow> frt_estourado n"
  by (auto simp: frt_estourado_removed_def frt_estourado_def)

lemma ttr_removed_imp: "ttr_estourado_removed n \<Longrightarrow> ttr_estourado n"
  by (auto simp: ttr_estourado_removed_def ttr_estourado_def)

lemma csat_removed_imp: "csat_alto_removed n \<Longrightarrow> csat_alto n"
  by (auto simp: csat_alto_removed_def csat_alto_def)

lemma sla_filter_frt: "any_nf frt_estourado mel \<Longrightarrow> \<not> any_nf frt_dentro (sla_filter mel fort)"
  by (auto simp: sla_filter_def any_nf_iff forte_contradiz_sla_def Let_def)

lemma sla_filter_ttr: "any_nf ttr_estourado mel \<Longrightarrow> \<not> any_nf ttr_dentro (sla_filter mel fort)"
  by (auto simp: sla_filter_def any_nf_iff forte_contradiz_sla_def Let_def)

lemma step2_frt: "(if any_nf frt_dentro (sla_filter mel fort) then drop_nf frt_estourado_removed mel else mel) = mel"
proof (cases "any_nf frt_dentro (sla_filter mel fort)")
  case True
  then have "\<not> any_nf frt_estourado mel" using sla_filter_frt by blast
  then have "\<not> any_nf frt_estourado_removed mel" using any_nf_weaken[of frt_estourado_removed frt_estourado] frt_removed_imp by blast
  then show ?thesis by (simp add: drop_nf_id)
qed simp

lemma step2_ttr: "(if any_nf ttr_dentro (sla_filter mel fort) then drop_nf ttr_estourado_removed mel else mel) = mel"
proof (cases "any_nf ttr_dentro (sla_filter mel fort)")
  case True
  then have "\<not> any_nf ttr_estourado mel" using sla_filter_ttr by blast
  then have "\<not> any_nf ttr_estourado_removed mel" using any_nf_weaken[of ttr_estourado_removed ttr_estourado] ttr_removed_imp by blast
  then show ?thesis by (simp add: drop_nf_id)
qed simp

lemma remove_contradictions_resolved: "remove_contradictions mel fort = resolved mel fort"
proof (cases "mel = [] \<and> fort = []")
  case True
  then show ?thesis
    by (simp add: remove_contradictions_def resolved_def sla_filter_def any_nf_def drop_nf_def)
next
  case False
  then show ?thesis
    unfolding remove_contradictions_def resolved_def Let_def
    by (simp only: sla_filter_def[symmetric] step2_frt step2_ttr if_False)
qed


lemma set_sla_filter_subset: "set (sla_filter mel fort) \<subseteq> set fort"
  by (auto simp: sla_filter_def)

lemma resolved_sets:
  assumes "resolved mel0 fort0 = (mel, fort)"
  shows "set mel \<subseteq> set mel0" "set fort \<subseteq> set (sla_filter mel0 fort0)"
  using assms set_drop_nf_subset
  by (auto simp: resolved_def Let_def split: if_splits) blast+

lemma resolved_frt:
  assumes "resolved mel0 fort0 = (mel, fort)"
  shows "\<not> (any_nf frt_estourado mel \<and> any_nf frt_dentro fort)"
  using resolved_sets[OF assms] sla_filter_frt[of mel0 fort0] any_nf_mono by blast

lemma resolved_ttr:
  assumes "resolved mel0 fort0 = (mel, fort)"
  shows "\<not> (any_nf ttr_estourado mel \<and> any_nf ttr_dentro fort)"
  using resolved_sets[OF assms] sla_filter_ttr[of mel0 fort0] any_nf_mono by blast

lemma drop_nf_keeps_none: "\<not> any_nf t xs \<Longrightarrow> \<not> any_nf t (drop_nf u xs)"
  using any_nf_mono[OF set_drop_nf_subset] by blast

lemma resolved_csat:
  assumes "resolved mel0 fort0 = (mel, fort)"
  shows "\<not> (any_nf csat_baixo mel \<and> any_nf csat_alto fort)"
  using assms
  by (auto simp: resolved_def Let_def any_nf_iff set_drop_nf split: if_splits)

lemma resolved_tags:
  assumes "resolved mel0 fort0 = (mel, fort)"
  shows "\<not> (any_nf tags_neg mel \<and> any_nf tags_adequado fort)"
  using assms
  by (auto simp: resolved_def Let_def any_nf_iff set_drop_nf split: if_splits)

lemma resolved_tapi:
  assumes "resolved mel0 fort0 = (mel, fort)"
  shows "\<not> (any_nf tapi_mel mel \<and> any_nf tapi_entre fort)"
  using assms
  by (auto simp: resolved_def Let_def any_nf_iff set_drop_nf split: if_splits)

lemma sla_filter_fixed:
  assumes "set mel \<subseteq> set mel0" "set fort \<subseteq> set (sla_filter mel0 fort0)"
  shows "sla_filter mel fort = fort"
proof -
  have "\<not> forte_contradiz_sla (any_nf frt_estourado mel) (any_nf ttr_estourado mel) f"
    if "f \<in> set fort" for f
  proof -
    from that assms(2)
    have "\<not> forte_contradiz_sla (any_nf frt_estourado mel0) (any_nf ttr_estourado mel0) f"
      by (auto simp: sla_filter_def)
    moreover have "any_nf frt_estourado mel \<Longrightarrow> any_nf frt_estourado mel0"
      and "any_nf ttr_estourado mel \<Longrightarrow> any_nf ttr_estourado mel0"
      using any_nf_mono[OF assms(1)] by blast+
    ultimately show ?thesis
      by (auto simp: forte_contradiz_sla_def Let_def split: if_splits)
  qed
  then show ?thesis by (simp add: sla_filter_def filter_id_conv)
qed

lemma resolved_fixed:
  assumes "resolved mel0 fort0 = (mel, fort)"
  shows "resolved mel fort = (mel, fort)"
proof -
  have s: "sla_filter mel fort = fort" using sla_filter_fixed resolved_sets[OF assms] by blast
  have c1: "(if any_nf csat_baixo mel then drop_nf csat_alto_removed fort else fort) = fort"
  proof (cases "any_nf csat_baixo mel")
    case True
    then have "\<not> any_nf csat_alto fort" using resolved_csat[OF assms] by blast
    then have "\<not> any_nf csat_alto_removed fort"
      using any_nf_weaken[of csat_alto_removed csat_alto fort] csat_removed_imp by blast
    then show ?thesis by (simp add: drop_nf_id)
  qed simp
  have c2: "(if any_nf csat_alto fort then drop_nf csat_baixo mel else mel) = mel"
    using resolved_csat[OF assms] by (auto simp: drop_nf_id)
  have t: "(if any_nf tags_neg mel then drop_nf tags_adequado fort else fort) = fort"
    using resolved_tags[OF assms] by (auto simp: drop_nf_id)
  have p: "(if any_nf tapi_mel mel then drop_nf tapi_entre fort else fort) = fort"
    using resolved_tapi[OF assms] by (auto simp: drop_nf_id)
  show ?thesis
    unfolding resolved_def Let_def by (simp only: s c1 c2 t p)
qed

text \<open>
  C3 (as amended). The resolver reads every indicator by keyword tests on the normalized
  text: \<open>frt_estourado\<close>, \<open>ttr_estourado\<close>, \<open>csat_baixo\<close>, \<open>tags_neg\<close> and \<open>tapi_mel\<close> for a
  violation among the improvements, \<open>frt_dentro\<close>, \<open>ttr_dentro\<close>, \<open>csat_alto\<close>,
  \<open>tags_adequado\<close> and \<open>tapi_entre\<close> for compliance among the strengths. After one pass of
  \<open>_remove_contradictions\<close>, for each indicator no improvement passes its violation test
  while a strength passes its compliance test, and a second pass changes nothing.
\<close>

theorem remove_contradictions_consistent:
  "(let (mel, fort) = remove_contradictions melhorias fortes in
      \<not> (any_nf frt_estourado mel \<and> any_nf frt_dentro fort) \<and>
      \<not> (any_nf ttr_estourado mel \<and> any_nf ttr_dentro fort) \<and>
      \<not> (any_nf csat_baixo mel \<and> any_nf csat_alto fort) \<and>
      \<not> (any_nf tags_neg mel \<and> any_nf tags_adequado fort) \<and>
      \<not> (any_nf tapi_mel mel \<and> any_nf tapi_entre fort) \<and>
      remove_contradictions mel fort = (mel, fort))"
proof -
  obtain mel fort where r: "resolved melhorias fortes = (mel, fort)"
    by (cases "resolved melhorias fortes")
  have rc: "remove_contradictions melhorias fortes = (mel, fort)"
    using r by (simp only: remove_contradictions_resolved)
  have fx: "remove_contradictions mel fort = (mel, fort)"
    using resolved_fixed[OF r] by (simp only: remove_contradictions_resolved)
  show ?thesis
    unfolding rc Let_def prod.case
    using resolved_frt[OF r] resolved_ttr[OF r] resolved_csat[OF r] resolved_tags[OF r]
      resolved_tapi[OF r] fx
    by (intro conjI)
qed








text \<open>The example of the docstring of \<open>_remove_contradictions\<close>.\<close>

lemma remove_contradictions_docstring_example:
  "remove_contradictions [''TTR estourado''] [''TTR/FRT dentro do SLA'', ''Resposta clara'']
     = ([''TTR estourado''], [''Resposta clara''])"
  by code_simp


text \<open>
  C3 as stated fails: a violation worded outside the keywords of the tests stays among
  the improvements while the strengths keep the statement that the same sub-metric was
  met. The test for a TTR violation looks for the word \<open>estourado\<close>, so \<open>TTR estourou\<close> is
  not one for it, while \<open>TTR cumprido\<close> passes the compliance test; the wording
  \<open>fora do SLA\<close> counts as an FRT violation only after \<open>first response\<close> written in full,
  not after the abbreviation.
\<close>

theorem unlisted_violation_wording_kept:
  "remove_contradictions [''TTR estourou''] [''TTR cumprido'']
     = ([''TTR estourou''], [''TTR cumprido'']) \<and>
   \<not> any_nf ttr_estourado [''TTR estourou''] \<and> any_nf ttr_dentro [''TTR cumprido''] \<and>
   remove_contradictions [''FRT fora do SLA''] [''FRT dentro do SLA'']
     = ([''FRT fora do SLA''], [''FRT dentro do SLA'']) \<and>
   \<not> any_nf frt_estourado [''FRT fora do SLA''] \<and> any_nf frt_dentro [''FRT dentro do SLA'']"
  by code_simp


section \<open>Properties of the request executor\<close>

lemma quiet_append:
  "quiet env k (xs @ ys) \<longleftrightarrow> quiet env k xs \<and> quiet env (k + length xs) ys"
  by (induction xs arbitrary: k) auto

lemma run_ok_refl: "res \<noteq> Some (fail msg_unavailable) \<Longrightarrow> run_ok env calls (res, g, calls)"
  by (simp add: run_ok_def)

lemma accepted_not_fail: "accepted res \<Longrightarrow> res \<noteq> Some (fail m)"
  by (auto simp: accepted_def fail_def split: option.splits)

lemma run_ok_step:
  assumes "run_ok env (calls @ [rq]) out" "\<not> final_failure rq (env (length calls))"
  shows "run_ok env calls out"
proof -
  obtain res g calls' where out: "out = (res, g, calls')" by (cases out)
  from assms(1) obtain ext where e: "calls' = (calls @ [rq]) @ ext"
    and q1: "res = Some (fail msg_unavailable) \<Longrightarrow> quiet env (Suc (length calls)) (butlast ext)"
    and q2: "res \<noteq> Some (fail msg_unavailable) \<Longrightarrow> quiet env (Suc (length calls)) ext"
    unfolding run_ok_def out prod.case by auto
  show ?thesis
  proof (cases "res = Some (fail msg_unavailable)")
    case True
    show ?thesis
    proof (cases "ext = []")
      case True
      with \<open>res = _\<close> e assms(2) show ?thesis
        by (auto simp: run_ok_def out intro!: exI[of _ "[rq]"])
    next
      case False
      with True q1 e assms(2) show ?thesis
        by (auto simp: run_ok_def out butlast_append intro!: exI[of _ "rq # ext"])
    qed
  next
    case False
    with q2 e assms(2) show ?thesis
      by (auto simp: run_ok_def out intro!: exI[of _ "rq # ext"])
  qed
qed

lemma run_ok_stop:
  "res \<noteq> Some (fail msg_unavailable) \<Longrightarrow> \<not> final_failure rq (env (length calls)) \<Longrightarrow>
   run_ok env calls (res, g, calls @ [rq])"
  by (auto simp: run_ok_def)

lemma run_ok_abort: "run_ok env calls (Some (fail msg_unavailable), g, calls @ [rq])"
  by (auto simp: run_ok_def)

lemma attempts_run_ok: "run_ok env (snd st) (attempts lib env sh m as st)"
proof (induction lib env sh m as st rule: attempts.induct)
  case (1 lib env sh m st)
  then show ?case by (cases st) (simp add: run_ok_refl)
next
  case (2 lib env sh m attempt rest got_404 calls)
  let ?rq = "Post sh m attempt"
  let ?calls' = "calls @ [?rq]"
  have rec: "run_ok env calls (attempts lib env sh m rest (g, ?calls'))"
    if "run_ok env ?calls' (attempts lib env sh m rest (g, ?calls'))"
       "\<not> final_failure ?rq (env (length calls))" for g
    using run_ok_step[OF that] .
  show ?case
  proof (cases "env (length calls)")
    case ConnectionError
    then show ?thesis using 2 
      by (auto simp: Let_def final_failure_def run_ok_abort intro!: rec)
  next
    case Timeout
    then show ?thesis using 2
      by (auto simp: Let_def final_failure_def run_ok_abort intro!: rec)
  next
    case RequestError
    then show ?thesis
      by (auto simp: Let_def final_failure_def transient_def intro!: run_ok_stop)
  next
    case (Response status body)
    have nf: "\<not> final_failure ?rq (env (length calls))"
      by (simp add: final_failure_def transient_def Response)
    show ?thesis
    proof (cases "status = 404")
      case True
      with Response nf show ?thesis by (auto simp: Let_def intro!: run_ok_stop)
    next
      case n404: False
      show ?thesis
      proof (cases "status = 200")
        case False
        with n404 Response nf 2 show ?thesis by (auto simp: Let_def intro!: rec)
      next
        case True
        show ?thesis
        proof (cases "extract_content sh body")
          case Raised
          with True Response nf show ?thesis by (auto simp: Let_def intro!: run_ok_stop)
        next
          case Break
          with True Response nf show ?thesis by (auto simp: Let_def intro!: run_ok_stop)
        next
          case NoChoices
          with True Response nf 2 show ?thesis by (auto simp: Let_def intro!: rec)
        next
          case (Content content)
          show ?thesis
          proof (cases "content = []")
            case True
            with Content \<open>status = 200\<close> Response nf 2 show ?thesis
              by (auto simp: Let_def intro!: rec)
          next
            case False
            show ?thesis
            proof (cases "parse_ollama_nota_response lib (PStr content)")
              case (Inl e)
              with False Content \<open>status = 200\<close> Response nf show ?thesis
                by (auto simp: Let_def intro!: run_ok_stop)
            next
              case (Inr result)
              show ?thesis
              proof (cases "accepted result")
                case True
                with Inr False Content \<open>status = 200\<close> Response nf
                  accepted_not_fail[of result msg_unavailable] show ?thesis
                  by (auto simp: Let_def intro!: run_ok_stop)
              next
                case na: False
                with Inr False Content \<open>status = 200\<close> Response nf 2 show ?thesis
                  by (auto simp: Let_def intro!: rec)
              qed
            qed
          qed
        qed
      qed
    qed
  qed
qed


lemma quiet_butlast: "quiet env k xs \<Longrightarrow> quiet env k (butlast xs)"
  by (induction xs arbitrary: k) auto

lemma run_ok_trans:
  assumes "run_ok env c0 (None, g1, c1)" "run_ok env c1 out"
  shows "run_ok env c0 out"
proof -
  obtain res g calls' where out: "out = (res, g, calls')" by (cases out)
  from assms(1) obtain e1 where e1: "c1 = c0 @ e1" and q1: "quiet env (length c0) e1"
    unfolding run_ok_def prod.case by auto
  from assms(2) obtain e2 where e2: "calls' = c1 @ e2"
    and qa: "res = Some (fail msg_unavailable) \<Longrightarrow> quiet env (length c1) (butlast e2)"
    and qb: "res \<noteq> Some (fail msg_unavailable) \<Longrightarrow> quiet env (length c1) e2"
    unfolding run_ok_def out prod.case by auto
  have "calls' = c0 @ (e1 @ e2)" using e1 e2 by simp
  moreover have "quiet env (length c0) (butlast (e1 @ e2))" if "res = Some (fail msg_unavailable)"
    using qa[OF that] q1 e1 quiet_butlast[OF q1]
    by (cases "e2 = []") (auto simp: butlast_append quiet_append)
  moreover have "quiet env (length c0) (e1 @ e2)" if "res \<noteq> Some (fail msg_unavailable)"
    using qb[OF that] q1 e1 by (simp add: quiet_append)
  ultimately show ?thesis unfolding run_ok_def out prod.case by blast
qed

lemma models_loop_run_ok: "run_ok env (snd st) (models_loop lib env ms st)"
proof (induction ms arbitrary: st)
  case Nil
  then show ?case by (cases st) (simp add: run_ok_refl)
next
  case (Cons m ms)
  show ?case
  proof (cases "m = []")
    case True
    then show ?thesis using Cons by simp
  next
    case False
    let ?as = "[0..<max_retries + 1]"
    obtain r1 g1 c1 where a1: "attempts lib env Generate (strip m) ?as st = (r1, g1, c1)"
      by (metis prod_cases3)
    have k1: "run_ok env (snd st) (r1, g1, c1)" using attempts_run_ok[of env st lib Generate "strip m" ?as] a1 by simp
    show ?thesis
    proof (cases r1)
      case (Some r)
      with a1 k1 False show ?thesis by simp
    next
      case None
      obtain r2 g2 c2 where a2: "attempts lib env Chat (strip m) ?as (g1, c1) = (r2, g2, c2)"
        by (metis prod_cases3)
      have k2: "run_ok env c1 (r2, g2, c2)" using attempts_run_ok[of env "(g1, c1)" lib Chat "strip m" ?as] a2 by simp
      have k12: "run_ok env (snd st) (r2, g2, c2)" using run_ok_trans[OF k1[unfolded None] k2] .
      show ?thesis
      proof (cases r2)
        case (Some r)
        with a1 a2 None k12 False show ?thesis by simp
      next
        case n2: None
        obtain r3 g3 c3 where a3: "attempts lib env Completions (strip m) ?as (g2, c2) = (r3, g3, c3)"
          by (metis prod_cases3)
        have k3: "run_ok env c2 (r3, g3, c3)" using attempts_run_ok[of env "(g2, c2)" lib Completions "strip m" ?as] a3 by simp
        have k123: "run_ok env (snd st) (r3, g3, c3)" using run_ok_trans[OF k12[unfolded n2] k3] .
        show ?thesis
        proof (cases r3)
          case (Some r)
          with a1 a2 a3 None n2 k123 False show ?thesis by simp
        next
          case n3: None
          have "run_ok env c3 (models_loop lib env ms (g3, c3))" using Cons[of "(g3, c3)"] by simp
          from run_ok_trans[OF k123[unfolded n3] this] a1 a2 a3 None n2 n3 False
          show ?thesis by simp
        qed
      qed
    qed
  qed
qed

lemma quiet_nth:
  "quiet env k xs \<Longrightarrow> i < length xs \<Longrightarrow> \<not> final_failure (xs ! i) (env (k + i))"
proof (induction xs arbitrary: k i)
  case Nil
  then show ?case by simp
next
  case (Cons x xs)
  show ?case
  proof (cases i)
    case 0
    with Cons.prems show ?thesis by simp
  next
    case (Suc n)
    with Cons.prems Cons.IH[of "Suc k" n] show ?thesis by simp
  qed
qed

text \<open>
  C5. In a run of \<open>get_issue_note_from_ollama\<close>, a POST that is the last attempt of its
  retry loop and ends in a connection error or timeout is the last call of the run, and the
  run returns the judgment without rating whose comment says the service is unavailable.
\<close>

theorem last_attempt_transient_aborts:
  assumes run: "get_issue_note_from_ollama lib env ollama_url model = (j, calls)"
    and i: "i < length calls"
    and rq: "calls ! i = Post sh m max_retries"
    and tr: "transient (env i)"
  shows "Suc i = length calls \<and> j = fail msg_unavailable"
proof -
  have ff: "final_failure (calls ! i) (env i)" using rq tr by (auto simp: final_failure_def)
  from run i rq obtain installed where d: "discover (env 0) = Inr installed"
    and cfg: "\<not> (case ollama_url of None \<Rightarrow> True | Some u \<Rightarrow> u = [] \<or> strip u = [])"
    by (auto simp: get_issue_note_from_ollama_def split: if_splits sum.splits)
  obtain res g cs where ml: "models_loop lib env (models_to_try installed (default_model model))
      (False, [GetTags]) = (res, g, cs)" by (metis prod_cases3)
  from models_loop_run_ok[of env "(False, [GetTags])" lib
      "models_to_try installed (default_model model)"] ml
  have ok: "run_ok env [GetTags] (res, g, cs)" by simp
  then obtain ext where ext: "cs = [GetTags] @ ext"
    and qa: "res = Some (fail msg_unavailable) \<Longrightarrow> quiet env 1 (butlast ext)"
    and qb: "res \<noteq> Some (fail msg_unavailable) \<Longrightarrow> quiet env 1 ext"
    unfolding run_ok_def prod.case by auto
  from run d cfg ml have calls: "calls = cs"
    by (auto simp: get_issue_note_from_ollama_def split: option.splits)
  from i rq calls ext obtain i' where i': "i = Suc i'" "i' < length ext" "ext ! i' = calls ! i"
    by (cases i) auto
  show ?thesis
  proof (cases "res = Some (fail msg_unavailable)")
    case True
    have "\<not> i' < length (butlast ext)"
    proof
      assume l: "i' < length (butlast ext)"
      from quiet_nth[OF qa[OF True] l] ff i' l show False by (simp add: nth_butlast)
    qed
    with i' have "Suc i' = length ext" by simp
    moreover from True run d cfg ml have "j = fail msg_unavailable"
      by (auto simp: get_issue_note_from_ollama_def)
    ultimately show ?thesis using i' calls ext by simp
  next
    case False
    from quiet_nth[OF qb[OF False] i'(2)] ff i' show ?thesis by simp
  qed
qed

lemma accepted_evaluated: "accepted (Some r) \<Longrightarrow> nota_is_evaluated r"
  by (auto simp: accepted_def nota_is_evaluated_def split: option.splits)

lemma accepted_Some: "accepted res \<Longrightarrow> \<exists>r. res = Some r \<and> nota_is_evaluated r"
  by (cases res) (auto simp: accepted_def nota_is_evaluated_def split: option.splits)

lemma attempts_ret_ok: "ret_ok (attempts lib env sh m as st)"
proof (induction lib env sh m as st rule: attempts.induct)
  case (1 lib env sh m st)
  then show ?case by (simp add: ret_ok_def)
next
  case (2 lib env sh m attempt rest got_404 calls)
  show ?case
  proof (cases "env (length calls)")
    case ConnectionError
    with 2 show ?thesis by (auto simp: Let_def ret_ok_def)
  next
    case Timeout
    with 2 show ?thesis by (auto simp: Let_def ret_ok_def)
  next
    case RequestError
    then show ?thesis by (simp add: Let_def ret_ok_def)
  next
    case (Response status body)
    show ?thesis
    proof (cases "extract_content sh body")
      case (Content content)
      show ?thesis
      proof (cases "parse_ollama_nota_response lib (PStr content)")
        case (Inl e)
        with Content Response 2 show ?thesis by (auto simp: Let_def ret_ok_def)
      next
        case (Inr result)
        show ?thesis
        proof (cases "accepted result")
          case True
          from accepted_Some[OF True] obtain r where "result = Some r" "nota_is_evaluated r" by blast
          with True Inr Content Response 2 show ?thesis by (auto simp: Let_def ret_ok_def)
        next
          case False
          with Inr Content Response 2 show ?thesis by (auto simp: Let_def ret_ok_def)
        qed
      qed
    qed (use Response 2 in \<open>auto simp: Let_def ret_ok_def\<close>)
  qed
qed

lemma attempts_Some:
  "attempts lib env sh m as st = (Some r, st') \<Longrightarrow> nota_is_evaluated r \<or> r = fail msg_unavailable"
  using attempts_ret_ok[of lib env sh m as st] by (simp add: ret_ok_def)

lemma models_loop_Some:
  "models_loop lib env ms st = (Some r, st') \<Longrightarrow> nota_is_evaluated r \<or> r = fail msg_unavailable"
proof (induction ms arbitrary: st)
  case Nil
  then show ?case by simp
next
  case (Cons m ms)
  show ?case
  proof (cases "m = []")
    case True
    with Cons show ?thesis by simp
  next
    case False
    let ?as = "[0..<max_retries + 1]"
    obtain r1 s1 where a1: "attempts lib env Generate (strip m) ?as st = (r1, s1)" by (meson surj_pair)
    obtain r2 s2 where a2: "attempts lib env Chat (strip m) ?as s1 = (r2, s2)" by (meson surj_pair)
    obtain r3 s3 where a3: "attempts lib env Completions (strip m) ?as s2 = (r3, s3)" by (meson surj_pair)
    show ?thesis
    proof (cases r1)
      case (Some x)
      with Cons.prems False a1 attempts_Some[of lib env Generate "strip m" ?as st x s1]
      show ?thesis by simp
    next
      case n1: None
      show ?thesis
      proof (cases r2)
        case (Some x)
        with Cons.prems False a1 a2 n1 attempts_Some[of lib env Chat "strip m" ?as s1 x s2]
        show ?thesis by simp
      next
        case n2: None
        show ?thesis
        proof (cases r3)
          case (Some x)
          with Cons.prems False a1 a2 a3 n1 n2
            attempts_Some[of lib env Completions "strip m" ?as s2 x s3]
          show ?thesis by simp
        next
          case n3: None
          with Cons.prems False a1 a2 a3 n1 n2 Cons.IH[of s3] show ?thesis by simp
        qed
      qed
    qed
  qed
qed

lemma fail_prefix:
  "\<exists>rest. msg_not_configured = nao_avaliado @ rest"
  "\<exists>rest. msg_not_daemon = nao_avaliado @ rest"
  "\<exists>rest. msg_unavailable = nao_avaliado @ rest"
  "\<exists>rest. msg_not_found = nao_avaliado @ rest"
  "\<exists>rest. msg_no_model = nao_avaliado @ rest"
  unfolding msg_not_configured_def msg_not_daemon_def msg_unavailable_def msg_not_found_def
    msg_no_model_def by blast+

lemma fail_not_evaluated:
  "not_evaluated (fail msg_not_configured)" "not_evaluated (fail msg_not_daemon)"
  "not_evaluated (fail msg_unavailable)" "not_evaluated (fail msg_not_found)"
  "not_evaluated (fail msg_no_model)"
  using fail_prefix by (simp_all add: not_evaluated_def fail_def)

lemma discover_Inl: "discover r = Inl j \<Longrightarrow> j = fail msg_unavailable \<or> j = fail msg_not_daemon"
  by (auto simp: discover_def split: response.splits if_splits)

text \<open>
  The range of a run that returns: the judgment has a rating that is an integer from 1
  to 5, or its rating is \<open>None\<close> and its comment is a text that begins with the words of
  \<open>nao_avaliado\<close>. Every exception of a call, of decoding a body and of the parser is
  handled inside the function.
\<close>

theorem executor_result:
  "(let (j, calls) = get_issue_note_from_ollama lib env ollama_url model in
      nota_is_evaluated j \<or>
      (nota j = None \<and> (\<exists>rest. comentario j = PStr (nao_avaliado @ rest))))"
proof -
  let ?ms = "\<lambda>inst. models_loop lib env (models_to_try inst (default_model model)) (False, [GetTags])"
  have ml: "nota_is_evaluated r \<or> not_evaluated r" if "?ms inst = (Some r, st')" for inst r st'
    using models_loop_Some[OF that] fail_not_evaluated(3) by auto
  have "nota_is_evaluated (fst (get_issue_note_from_ollama lib env ollama_url model))
      \<or> not_evaluated (fst (get_issue_note_from_ollama lib env ollama_url model))"
  proof (cases "case ollama_url of None \<Rightarrow> True | Some u \<Rightarrow> u = [] \<or> strip u = []")
    case True
    then show ?thesis by (simp add: get_issue_note_from_ollama_def fail_not_evaluated)
  next
    case False
    show ?thesis
    proof (cases "discover (env 0)")
      case (Inl j)
      with False discover_Inl[OF Inl] show ?thesis
        by (auto simp: get_issue_note_from_ollama_def fail_not_evaluated)
    next
      case (Inr inst)
      obtain res g cs where m: "?ms inst = (res, g, cs)" by (metis prod_cases3)
      show ?thesis
      proof (cases res)
        case None
        with False Inr m show ?thesis
          by (simp add: get_issue_note_from_ollama_def fail_not_evaluated)
      next
        case (Some r)
        with False Inr m ml[of inst r "(g, cs)"] show ?thesis
          by (simp add: get_issue_note_from_ollama_def)
      qed
    qed
  qed
  then show ?thesis by (auto simp: not_evaluated_def split: prod.splits)
qed

text \<open>
  The function with its ticket returns what the run returns, unless the construction of
  the context raises: it raises exactly when the URL is configured, the discovery call
  lets the run go on, and the construction raises.
\<close>

lemma executor_issue_returns:
  "get_issue_note_from_ollama_issue lib env rest issue ollama_url model = Inr out \<Longrightarrow>
     out = get_issue_note_from_ollama lib env ollama_url model"
  unfolding get_issue_note_from_ollama_issue_def get_issue_note_from_ollama_def
  by (auto split: if_splits sum.splits option.splits prod.splits)

lemma executor_issue_raises:
  "get_issue_note_from_ollama_issue lib env rest issue ollama_url model = Inl e \<longleftrightarrow>
     \<not> (case ollama_url of None \<Rightarrow> True | Some u \<Rightarrow> u = [] \<or> strip u = []) \<and>
     (\<exists>installed. discover (env 0) = Inr installed) \<and>
     build_context rest issue = Some e"
  unfolding get_issue_note_from_ollama_issue_def
  by (auto split: if_splits sum.splits option.splits prod.splits)

lemma executor_issue_result:
  "(case get_issue_note_from_ollama_issue lib env rest issue ollama_url model of
      Inl e \<Rightarrow> build_context rest issue = Some e
    | Inr (j, calls) \<Rightarrow>
        nota_is_evaluated j \<or>
        (nota j = None \<and> (\<exists>rest. comentario j = PStr (nao_avaliado @ rest))))"
proof (cases "get_issue_note_from_ollama_issue lib env rest issue ollama_url model")
  case (Inl e)
  then show ?thesis using executor_issue_raises[of lib env rest issue ollama_url model e] by simp
next
  case (Inr out)
  obtain j calls where o: "out = (j, calls)" by (cases out)
  have "get_issue_note_from_ollama lib env ollama_url model = (j, calls)"
    using executor_issue_returns[OF Inr] o by simp
  with executor_result[of lib env ollama_url model]
  have "nota_is_evaluated j \<or>
        (nota j = None \<and> (\<exists>rest. comentario j = PStr (nao_avaliado @ rest)))"
    by simp
  with Inr o show ?thesis by simp
qed

lemma dropWhile_strip: "dropWhile isspace (strip s) = strip s"
proof -
  let ?u = "dropWhile isspace s"
  let ?t = "rev (dropWhile isspace (rev ?u))"
  have u: "?u = ?t @ rev (takeWhile isspace (rev ?u))"
    by (metis rev_append rev_rev_ident takeWhile_dropWhile_id)
  show ?thesis
  proof (cases "?t = []")
    case True
    show ?thesis unfolding strip_def by (simp only: True dropWhile.simps)
  next
    case False
    then have "hd ?t = hd ?u" using u by (metis hd_append2)
    moreover have "?u \<noteq> []" using False by fastforce
    then have "\<not> isspace (hd ?u)" by (rule hd_dropWhile)
    ultimately have "\<not> isspace (hd ?t)" by simp
    with False have "dropWhile isspace ?t = ?t" by (cases ?t) auto
    then show ?thesis by (simp add: strip_def)
  qed
qed

lemma strip_strip: "strip (strip s) = strip s"
proof -
  have "dropWhile isspace (rev (strip s)) = rev (strip s)"
    by (simp add: strip_def)
  then show ?thesis by (simp add: strip_def[of "strip s"] dropWhile_strip)
qed

lemma set_first_seen [simp]: "set (first_seen xs) = set xs"
  by (induction xs) auto

lemma distinct_first_seen [simp]: "distinct (first_seen xs)"
  by (induction xs) auto

lemma first_seen_distinct: "distinct xs \<Longrightarrow> first_seen xs = xs"
  by (induction xs) (auto simp: filter_id_conv)

lemma first_seen_append:
  "first_seen (xs @ ys) = first_seen xs @ filter (\<lambda>y. y \<notin> set xs) (first_seen ys)"
proof (induction xs)
  case Nil
  then show ?case by simp
next
  case (Cons x xs)
  have "filter (\<lambda>y. y \<noteq> x) (filter (\<lambda>y. y \<notin> set xs) zs) = filter (\<lambda>y. y \<notin> set (x # xs)) zs" for zs
    by (induction zs) auto
  with Cons show ?case by (simp del: filter_filter set_simps)
qed

lemma add_unseen_eq:
  "add_unseen names acc = acc @ filter (\<lambda>n. n \<notin> set acc) (first_seen (names_of names))"
proof (induction names arbitrary: acc)
  case Nil
  then show ?case by (simp add: names_of_def)
next
  case (Cons name names)
  let ?n = "strip name"
  let ?zs = "first_seen (names_of names)"
  show ?case
  proof (cases "?n = []")
    case True
    then have "names_of (name # names) = names_of names" by (simp add: names_of_def)
    with True Cons[of acc] show ?thesis by (simp add: Let_def)
  next
    case ne: False
    then have n: "names_of (name # names) = ?n # names_of names" by (simp add: names_of_def)
    show ?thesis
    proof (cases "?n \<in> set acc")
      case True
      have "filter (\<lambda>y. y \<notin> set acc) (filter (\<lambda>y. y \<noteq> ?n) zs) = filter (\<lambda>y. y \<notin> set acc) zs" for zs
        using True by (induction zs) auto
      then have "filter (\<lambda>y. y \<notin> set acc) (first_seen (names_of (name # names)))
          = filter (\<lambda>y. y \<notin> set acc) ?zs"
        using True by (simp add: n del: filter_filter)
      moreover have "add_unseen (name # names) acc = add_unseen names acc"
        using True by (simp add: Let_def)
      ultimately show ?thesis using Cons[of acc] by simp
    next
      case False
      have f: "filter (\<lambda>y. y \<notin> set (acc @ [?n])) zs
          = filter (\<lambda>y. y \<notin> set acc) (filter (\<lambda>y. y \<noteq> ?n) zs)" for zs
        by (induction zs) auto
      have "add_unseen (name # names) acc = add_unseen names (acc @ [?n])"
        using False ne by (simp add: Let_def)
      also have "\<dots> = (acc @ [?n]) @ filter (\<lambda>y. y \<notin> set (acc @ [?n])) ?zs"
        by (rule Cons)
      also have "\<dots> = acc @ ?n # filter (\<lambda>y. y \<notin> set acc) (filter (\<lambda>y. y \<noteq> ?n) ?zs)"
        by (simp only: f append_assoc append_Cons append_Nil)
      also have "\<dots> = acc @ filter (\<lambda>y. y \<notin> set acc) (first_seen (names_of (name # names)))"
        using False by (simp add: n del: filter_filter)
      finally show ?thesis .
    qed
  qed
qed


lemma collect_installed_clean: "clean acc \<Longrightarrow> clean (collect_installed items acc)"
proof (induction items acc rule: collect_installed.induct)
  case (1 acc)
  then show ?case by simp
next
  case (2 item items acc)
  show ?case
  proof (cases item)
    case (PDict kvs)
    let ?v = "if truthy (dict_get kvs ''name'') then dict_get kvs ''name'' else dict_get kvs ''model''"
    show ?thesis
    proof (cases "str_or_empty ?v")
      case None
      with PDict 2(3) show ?thesis by simp
    next
      case (Some s)
      show ?thesis
      proof (cases "strip s \<noteq> [] \<and> strip s \<notin> set acc")
        case True
        have "clean (acc @ [strip s])" using True 2(3) by (auto simp: clean_def strip_strip)
        with 2(1)[OF PDict Some refl True] PDict Some True show ?thesis by (simp add: Let_def)
      next
        case False
        with 2(2)[OF PDict Some refl False] 2(3) PDict Some show ?thesis by (auto simp: Let_def)
      qed
    qed
  qed (use 2(3) in simp_all)
qed

lemma installed_of_body_clean: "clean (installed_of_body body)"
proof -
  have e: "clean []" by (simp add: clean_def)
  show ?thesis
    using collect_installed_clean[OF e] e
    by (simp add: installed_of_body_def split: option.splits pyval.splits)
qed

lemma discover_clean: "discover r = Inr installed \<Longrightarrow> clean installed"
  using installed_of_body_clean[of "case r of Response s b \<Rightarrow> b | _ \<Rightarrow> None"]
  by (auto simp: discover_def clean_def split: response.splits if_splits)

lemma names_of_clean: "clean xs \<Longrightarrow> names_of xs = xs"
  by (induction xs) (auto simp: names_of_def clean_def)

lemma models_to_try_first_seen:
  "models_to_try installed model = first_seen (names_of (installed @ fallback_models model))"
  by (simp add: models_to_try_def add_unseen_eq)

lemma models_to_try_clean:
  assumes "clean installed"
  shows "models_to_try installed model =
     installed @ filter (\<lambda>n. n \<notin> set installed) (first_seen (names_of (fallback_models model)))"
proof -
  have "names_of (installed @ fallback_models model) = installed @ names_of (fallback_models model)"
    using names_of_clean[OF assms] by (simp add: names_of_def)
  moreover have "first_seen installed = installed"
    using assms by (simp add: first_seen_distinct clean_def)
  ultimately show ?thesis
    by (simp only: models_to_try_first_seen first_seen_append)
qed

lemma discover_installed_empty:
  "discover r = Inr installed \<Longrightarrow> \<forall>body. r \<noteq> Response 200 body \<Longrightarrow> installed = []"
  by (auto simp: discover_def split: response.splits if_splits)

text \<open>
  C6 (as amended). The discovery call never raises out of the function. On a connection
  error or timeout it ends the run with the unavailable judgment, on status 404 with the
  not-the-daemon judgment, and no candidate is resolved. Every other response (another
  exception of the call, another status, a 200 response whatever its body) lets the run go
  on with a list of installed names, and the candidates are then a list without
  repetitions: the installed names the response yielded (none unless it is a 200
  response), then the default model and the static fallback names that are not among
  them, in first-seen order.
\<close>

theorem candidate_resolution:
  "(transient r \<longrightarrow> discover r = Inl (fail msg_unavailable)) \<and>
   discover (Response 404 body) = Inl (fail msg_not_daemon) \<and>
   (\<not> transient r \<and> (\<forall>b. r \<noteq> Response 404 b) \<longrightarrow> (\<exists>installed. discover r = Inr installed)) \<and>
   (\<forall>installed. discover r = Inr installed \<longrightarrow>
      distinct (models_to_try installed (default_model model)) \<and>
      models_to_try installed (default_model model) =
        installed @ filter (\<lambda>n. n \<notin> set installed)
                      (first_seen (names_of (fallback_models (default_model model)))) \<and>
      ((\<forall>b. r \<noteq> Response 200 b) \<longrightarrow> installed = []))"
proof -
  have 1: "transient r \<longrightarrow> discover r = Inl (fail msg_unavailable)"
    by (auto simp: transient_def discover_def)
  have 2: "discover (Response 404 body) = Inl (fail msg_not_daemon)"
    by (simp add: discover_def)
  have 3: "distinct (models_to_try installed (default_model model))" for installed
    by (simp add: models_to_try_first_seen)
  have 4: "\<not> transient r \<and> (\<forall>b. r \<noteq> Response 404 b) \<longrightarrow> (\<exists>installed. discover r = Inr installed)"
    by (cases r) (simp_all add: transient_def discover_def)
  have 5: "\<forall>installed. discover r = Inr installed \<longrightarrow>
      distinct (models_to_try installed (default_model model)) \<and>
      models_to_try installed (default_model model) =
        installed @ filter (\<lambda>n. n \<notin> set installed)
                      (first_seen (names_of (fallback_models (default_model model)))) \<and>
      ((\<forall>b. r \<noteq> Response 200 b) \<longrightarrow> installed = [])"
    using 3 models_to_try_clean[OF discover_clean] discover_installed_empty by blast
  show ?thesis
    using 1 2 4 5 by (intro conjI)
qed

lemma run_all_connection_errors:
  "get_issue_note_from_ollama sample_lib (env_of (Response 200 (Some (PDict []))) ConnectionError)
     (Some ''http://127.0.0.1:11434'') None
   = (fail msg_unavailable,
      [GetTags, Post Generate ''llama3.2'' 0, Post Generate ''llama3.2'' 1,
       Post Generate ''llama3.2'' 2, Post Generate ''llama3.2'' 3, Post Generate ''llama3.2'' 4])"
  by code_simp

theorem last_attempt_transient_aborts_witness:
  "get_issue_note_from_ollama sample_lib (env_of (Response 200 (Some (PDict []))) ConnectionError)
     (Some ''http://127.0.0.1:11434'') None
   = (fail msg_unavailable,
      [GetTags, Post Generate ''llama3.2'' 0, Post Generate ''llama3.2'' 1,
       Post Generate ''llama3.2'' 2, Post Generate ''llama3.2'' 3, Post Generate ''llama3.2'' 4]) \<and>
   transient (env_of (Response 200 (Some (PDict []))) ConnectionError 5) \<and>
   Suc 5 = length [GetTags, Post Generate ''llama3.2'' 0, Post Generate ''llama3.2'' 1,
       Post Generate ''llama3.2'' 2, Post Generate ''llama3.2'' 3, Post Generate ''llama3.2'' 4]"
proof -
  have t: "transient (env_of (Response 200 (Some (PDict []))) ConnectionError 5)"
    by (simp add: transient_def env_of_def)
  from last_attempt_transient_aborts[OF run_all_connection_errors _ _ t, of Generate "''llama3.2''"]
    run_all_connection_errors t
  show ?thesis by (simp add: max_retries_def)
qed

text \<open>
  C6 as stated fails: when the discovery call ends in a connection error, the run returns
  the unavailable judgment at once; the discovery call is its only call and no candidate is
  tried.
\<close>

theorem discovery_connection_error_aborts:
  "discover ConnectionError = Inl (fail msg_unavailable) \<and>
   get_issue_note_from_ollama sample_lib (env_of ConnectionError ConnectionError)
     (Some ''http://127.0.0.1:11434'') None
   = (fail msg_unavailable, [GetTags])"
  by code_simp

lemma discover_tags_mistral: "discover tags_mistral = Inr [''mistral'']"
  by code_simp

lemma candidates_mistral:
  "[''mistral''] @ filter (\<lambda>n. n \<notin> set [''mistral''])
       (first_seen (names_of (fallback_models (default_model None))))
   = [''mistral'', ''llama3.2'', ''llama3.1'', ''llama3'', ''qwen2.5:0.5b'', ''qwen2.5'',
      ''gemma2:2b'']"
  by code_simp

lemma discover_500: "discover (Response 500 None) = Inr []"
  by code_simp

lemma candidates_fallback:
  "[] @ filter (\<lambda>n. n \<notin> set [])
       (first_seen (names_of (fallback_models (default_model None))))
   = [''llama3.2'', ''llama3.1'', ''llama3'', ''qwen2.5:0.5b'', ''qwen2.5'', ''mistral'',
      ''gemma2:2b'']"
  by code_simp

text \<open>
  Two runs of the resolution: a discovery that lists \<open>mistral\<close>, and a discovery answered
  by status 500, after which only the default model and the fallback names are tried.
\<close>

theorem candidate_resolution_witness:
  "discover tags_mistral = Inr [''mistral''] \<and>
   distinct (models_to_try [''mistral''] (default_model None)) \<and>
   models_to_try [''mistral''] (default_model None) =
     [''mistral'', ''llama3.2'', ''llama3.1'', ''llama3'', ''qwen2.5:0.5b'', ''qwen2.5'',
      ''gemma2:2b''] \<and>
   \<not> transient (Response 500 None) \<and>
   discover (Response 500 None) = Inr [] \<and>
   distinct (models_to_try [] (default_model None)) \<and>
   models_to_try [] (default_model None) =
     [''llama3.2'', ''llama3.1'', ''llama3'', ''qwen2.5:0.5b'', ''qwen2.5'', ''mistral'',
      ''gemma2:2b'']"
proof -
  have m: "distinct (models_to_try [''mistral''] (default_model None)) \<and>
     models_to_try [''mistral''] (default_model None) =
       [''mistral'', ''llama3.2'', ''llama3.1'', ''llama3'', ''qwen2.5:0.5b'', ''qwen2.5'',
        ''gemma2:2b'']"
    using candidate_resolution[of tags_mistral None None] discover_tags_mistral
      candidates_mistral by simp
  have t: "\<not> transient (Response 500 None)"
    by (simp add: transient_def)
  have "\<exists>installed. discover (Response 500 None) = Inr installed"
    using candidate_resolution[of "Response 500 None" None None] t by simp
  then have d: "discover (Response 500 None) = Inr []"
    using discover_500 by simp
  have f: "distinct (models_to_try [] (default_model None)) \<and>
     models_to_try [] (default_model None) =
       [''llama3.2'', ''llama3.1'', ''llama3'', ''qwen2.5:0.5b'', ''qwen2.5'', ''mistral'',
        ''gemma2:2b'']"
    using candidate_resolution[of "Response 500 None" None None] d candidates_fallback
    by simp
  show ?thesis
    using discover_tags_mistral m t d f by (intro conjI) (erule conjunct1 conjunct2 | assumption)+
qed

theorem executor_result_witness:
  "(let (j, calls) = get_issue_note_from_ollama sample_lib
        (env_of (Response 200 (Some (PDict []))) ConnectionError)
        (Some ''http://127.0.0.1:11434'') None in
      nota_is_evaluated j \<or>
      (nota j = None \<and> (\<exists>rest. comentario j = PStr (nao_avaliado @ rest))))"
  by (rule executor_result)




text \<open>The same run for a ticket whose summary is a text returns the rating of the backend.\<close>

lemma summary_text_returns:
  "get_issue_note_from_ollama_issue sample_lib
     (env_of tags_mistral (Response 200 (Some (PDict [(''response'', PStr ''4 - ok'')]))))
     (\<lambda>issue. None)
     (PDict [(''key'', PStr ''T-1''), (''fields'', PDict [(''summary'', PStr ''Login bloqueado'')])])
     (Some ''http://127.0.0.1:11434'') None
   = Inr (\<lparr>nota = Some 4, comentario = PStr ''ok''\<rparr>, [GetTags, Post Generate ''mistral'' 0])"
  by code_simp

section \<open>Properties of the cache and of the loop controller\<close>

lemma rule_based_evaluated: "nota_is_evaluated (get_issue_note_rule_based i)"
  by (simp add: get_issue_note_rule_based_def nota_is_evaluated_def Let_def)

lemma regras_evaluated: "nota_is_evaluated (regras_judgement i)"
  using rule_based_evaluated[of i]
  by (simp add: regras_judgement_def nota_is_evaluated_def Let_def)

lemma regras_nota: "nota (regras_judgement i) = nota (get_issue_note_rule_based i)"
  by (simp add: regras_judgement_def Let_def)

lemma tentativas_Some:
  "tentativas lib env url model n k = (Some r, k') \<Longrightarrow> nota_is_evaluated r"
  by (induction n arbitrary: k) (auto split: prod.splits if_splits)

lemma evaluate_one_evaluated:
  "nota_is_evaluated (fst (evaluate_one_issue lib env cfg i k))"
proof -
  obtain res k' where t: "tentativas lib env (env_or_none (ollama_url_env cfg))
      (env_or_none (ollama_model_env cfg)) (nat (max_tentativas cfg)) k = (res, k')"
    by (meson surj_pair)
  show ?thesis
    using t regras_evaluated
    by (cases res) (auto simp: evaluate_one_issue_def dest: tentativas_Some)
qed

lemma notas_get_set: "notas_get (notas_set k v d) k' = (if k' = k then Some v else notas_get d k')"
  by (simp add: notas_get_def notas_set_def update_conv')

lemma initial_out_get:
  "notas_get (initial_out f loaded cache ks out) k =
     (if k \<in> set ks then Some (initial_entry f loaded cache k) else notas_get out k)"
  by (induction ks arbitrary: out) (auto simp: notas_get_set)

lemma evaluate_keys_has_nota:
  assumes "\<forall>k\<in>set ks. ibk k \<noteq> None"
    and "k \<in> set ks \<or> has_nota (notas_get out) k"
  shows "has_nota (notas_get (fst (evaluate_keys lib env cfg ibk ks (out, s)))) k"
  using assms
proof (induction ks arbitrary: out s)
  case Nil
  then show ?case by simp
next
  case (Cons key rest)
  from Cons.prems(1) obtain i where i: "ibk key = Some i" by auto
  obtain result k' where e: "evaluate_one_issue lib env cfg i (n_calls s) = (result, k')"
    by (meson surj_pair)
  have ev: "nota_is_evaluated result" using evaluate_one_evaluated[of lib env cfg i "n_calls s"] e by simp
  let ?out = "notas_set key result out"
  have "k \<in> set rest \<or> has_nota (notas_get ?out) k"
    using Cons.prems(2) ev by (auto simp: has_nota_def notas_get_set)
  with Cons.IH[of ?out] Cons.prems(1) i e show ?case by (simp add: Let_def)
qed

lemma evaluate_keys_other:
  assumes "k \<notin> set ks"
  shows "notas_get (fst (evaluate_keys lib env cfg ibk ks (out, s))) k = notas_get out k"
  using assms
proof (induction ks arbitrary: out s)
  case Nil
  then show ?case by simp
next
  case (Cons key rest)
  show ?case
  proof (cases "ibk key")
    case None
    with Cons show ?thesis by simp
  next
    case (Some i)
    obtain result k' where e: "evaluate_one_issue lib env cfg i (n_calls s) = (result, k')"
      by (meson surj_pair)
    with Cons Some show ?thesis by (simp add: Let_def notas_get_set)
  qed
qed

lemma keys_sem_nota_Nil: "keys_sem_nota keys out = [] \<longleftrightarrow> (\<forall>k\<in>set keys. has_nota (notas_get out) k)"
  by (auto simp: keys_sem_nota_def filter_empty_conv)

lemma evaluate_passes_eq:
  assumes "\<forall>k\<in>set keys. ibk k \<noteq> None"
  shows "evaluate_passes lib env cfg ibk keys st =
     Some (if keys_sem_nota keys (fst st) = [] then st
           else evaluate_keys lib env cfg ibk (keys_sem_nota keys (fst st)) st)"
proof (cases "keys_sem_nota keys (fst st) = []")
  case True
  then show ?thesis by (subst evaluate_passes.simps) simp
next
  case False
  let ?ks = "keys_sem_nota keys (fst st)"
  let ?st = "evaluate_keys lib env cfg ibk ?ks st"
  have sub: "\<forall>k\<in>set ?ks. ibk k \<noteq> None" using assms by (simp add: keys_sem_nota_def)
  have "has_nota (notas_get (fst ?st)) k" if "k \<in> set keys" for k
  proof -
    have "k \<in> set ?ks \<or> has_nota (notas_get (fst st)) k" using that by (auto simp: keys_sem_nota_def)
    from evaluate_keys_has_nota[OF sub this, of lib env cfg "snd st"] show ?thesis by simp
  qed
  then have fin: "keys_sem_nota keys (fst ?st) = []" by (simp add: keys_sem_nota_Nil)
  have "evaluate_passes lib env cfg ibk keys st = evaluate_passes lib env cfg ibk keys ?st"
    using False by (subst evaluate_passes.simps) simp
  also have "\<dots> = Some ?st" using fin by (subst evaluate_passes.simps) simp
  finally show ?thesis using False by simp
qed

lemma batch_keys_have_issue: "k \<in> set (batch_keys issues) \<Longrightarrow> \<exists>i. issue_by_key issues k = Some i"
proof -
  assume "k \<in> set (batch_keys issues)"
  then have "k \<in> fst ` set (rev (task_list issues))" by (simp add: batch_keys_def)
  then show ?thesis unfolding issue_by_key_def by (metis domD dom_map_of_conv_image_fst)
qed

lemma initial_entry_not_forced:
  "nota_is_evaluated (initial_entry False loaded cache k) \<longleftrightarrow> has_nota loaded k \<or> has_nota cache k"
  by (auto simp: initial_entry_def has_nota_def entry_or_def default_entry_def nota_is_evaluated_def
      split: option.splits)

lemma initial_entry_forced:
  "\<not> nota_is_evaluated (initial_entry True Map.empty Map.empty k)"
  by (simp add: initial_entry_def entry_or_def default_entry_def nota_is_evaluated_def)

lemma run_eq:
  assumes "last_result s = Some issues" "issues \<noteq> []" "env_or_none (ollama_url_env cfg) \<noteq> None"
    "task_list issues \<noteq> []"
  shows "run_evaluate_all_until_complete lib env cfg f s =
     Some (Notas (fst (after_passes lib env cfg f issues s)),
           (snd (after_passes lib env cfg f issues s))
             \<lparr>last_notas := Some (fst (after_passes lib env cfg f issues s)),
              notas_table := save_notas_to_db lib (fst (after_passes lib env cfg f issues s))
                 (notas_table (snd (after_passes lib env cfg f issues s)))\<rparr>)"
proof -
  have h: "\<forall>k\<in>set (batch_keys issues). issue_by_key issues k \<noteq> None"
    using batch_keys_have_issue by fastforce
  show ?thesis
    using assms
    by (simp add: run_evaluate_all_until_complete_def Let_def evaluate_passes_eq[OF h]
        after_passes_def split: prod.splits)
qed


lemma after_passes_cached:
  assumes "\<forall>k\<in>set (batch_keys issues). cached_nota s k"
  shows "after_passes lib env cfg False issues s =
     (initial_out False (loaded_of s) (cache_of s) (batch_keys issues) [], s)"
proof -
  let ?out = "initial_out False (loaded_of s) (cache_of s) (batch_keys issues) []"
  have "has_nota (notas_get ?out) k" if "k \<in> set (batch_keys issues)" for k
    using that assms
    by (simp add: initial_out_get has_nota_def cached_nota_def
        initial_entry_not_forced[unfolded has_nota_def])
  then have "keys_sem_nota (batch_keys issues) ?out = []" by (simp add: keys_sem_nota_Nil)
  then show ?thesis by (simp add: after_passes_def Let_def)
qed

lemma cached_batch_run:
  assumes "last_result s = Some issues" and "issues \<noteq> []"
    and "env_or_none (ollama_url_env cfg) \<noteq> None"
    and "\<forall>k\<in>set (batch_keys issues). cached_nota s k"
  shows "\<exists>out s'. run_evaluate_all_until_complete lib env cfg False s = Some (Notas out, s') \<and>
           n_calls s' = n_calls s \<and>
           (\<forall>k\<in>set (batch_keys issues).
              notas_get out k = Some (cached_entry s k) \<and> nota_is_evaluated (cached_entry s k) \<and>
              (if has_nota (loaded_of s) k then loaded_of s k else cache_of s k)
                = Some (cached_entry s k))"
proof (cases "task_list issues = []")
  case True
  with assms show ?thesis
    by (simp add: run_evaluate_all_until_complete_def batch_keys_def)
next
  case False
  have e: "(if has_nota (loaded_of s) k then loaded_of s k else cache_of s k)
              = Some (cached_entry s k)"
    and v: "nota_is_evaluated (cached_entry s k)" if "k \<in> set (batch_keys issues)" for k
    using that assms(4)
    by (auto simp: cached_entry_def cached_nota_def initial_entry_def entry_or_def has_nota_def
        split: option.splits)
  show ?thesis
    using run_eq[OF assms(1-3) False, of lib env False] after_passes_cached[OF assms(4), of lib env cfg] e v
    by (simp add: initial_out_get cached_entry_def)
qed

text \<open>
  C7. When every ticket of the batch has a valid rating in the table or in memory, a run
  that is not forced returns, makes no call to the backend, and gives for every ticket
  the cached entry (the one of the table when it is valid, else the one in memory).
\<close>

theorem cached_batch_no_calls:
  assumes "last_result s = Some issues" and "issues \<noteq> []"
    and "env_or_none (ollama_url_env cfg) \<noteq> None"
    and "\<forall>k\<in>set (batch_keys issues). cached_nota s k"
  shows "\<exists>out s'. run_evaluate_all_until_complete lib env cfg False s = Some (Notas out, s') \<and>
           n_calls s' = n_calls s \<and>
           (\<forall>k\<in>set (batch_keys issues).
              notas_get out k = Some (cached_entry s k) \<and> nota_is_evaluated (cached_entry s k) \<and>
              (if has_nota (loaded_of s) k then loaded_of s k else cache_of s k)
                = Some (cached_entry s k))"
  using assms by (rule cached_batch_run)

lemma evaluate_keys_last_result:
  "last_result (snd (evaluate_keys lib env cfg ibk ks (out, s))) = last_result s"
proof (induction ks arbitrary: out s)
  case Nil
  then show ?case by simp
next
  case (Cons key rest)
  show ?case
  proof (cases "ibk key")
    case None
    with Cons show ?thesis by simp
  next
    case (Some i)
    obtain result k' where e: "evaluate_one_issue lib env cfg i (n_calls s) = (result, k')"
      by (meson surj_pair)
    with Cons Some show ?thesis by (simp add: Let_def)
  qed
qed

lemma after_passes_last_result:
  "last_result (snd (after_passes lib env cfg f issues s)) = last_result s"
  by (simp add: after_passes_def Let_def evaluate_keys_last_result)

lemma after_passes_all_evaluated:
  assumes "k \<in> set (batch_keys issues)"
  shows "has_nota (notas_get (fst (after_passes lib env cfg f issues s))) k"
proof -
  define out0 where "out0 = initial_out f (if f then Map.empty else loaded_of s)
      (if f then Map.empty else cache_of s) (batch_keys issues) []"
  define ks where "ks = keys_sem_nota (batch_keys issues) out0"
  have ap: "after_passes lib env cfg f issues s = (if ks = [] then (out0, s)
      else evaluate_keys lib env cfg (issue_by_key issues) ks (out0, s))"
    by (simp add: after_passes_def Let_def out0_def ks_def)
  have h: "\<forall>k\<in>set ks. issue_by_key issues k \<noteq> None"
    using batch_keys_have_issue by (fastforce simp: keys_sem_nota_def ks_def)
  have d: "k \<in> set ks \<or> has_nota (notas_get out0) k"
    using assms by (auto simp: ks_def keys_sem_nota_def)
  show ?thesis
  proof (cases "ks = []")
    case True
    with d ap show ?thesis by simp
  next
    case False
    with evaluate_keys_has_nota[OF h d, of lib env cfg s] ap show ?thesis by simp
  qed
qed

text \<open>
  The situation of C7 after a first run: whatever the backend answered in a run that
  returned the ratings of the batch, a second run that is not forced makes no call.
\<close>

lemma second_run_no_calls:
  assumes "run_evaluate_all_until_complete lib env cfg f s = Some (Notas out, s1)"
    and "last_result s = Some issues" and "issues \<noteq> []"
  shows "\<exists>out2 s2. run_evaluate_all_until_complete lib env2 cfg False s1 = Some (Notas out2, s2) \<and>
           n_calls s2 = n_calls s1 \<and>
           (\<forall>k\<in>set (batch_keys issues). \<exists>j. notas_get out2 k = Some j \<and> nota_is_evaluated j)"
proof -
  from assms have url: "env_or_none (ollama_url_env cfg) \<noteq> None"
    by (auto simp: run_evaluate_all_until_complete_def split: if_splits)
  show ?thesis
  proof (cases "task_list issues = []")
    case True
    with assms url have "s1 = s" by (simp add: run_evaluate_all_until_complete_def)
    with True assms url show ?thesis
      by (simp add: run_evaluate_all_until_complete_def batch_keys_def)
  next
    case False
    let ?ap = "after_passes lib env cfg f issues s"
    from run_eq[OF assms(2,3) url False, of lib env f] assms(1)
    have out: "out = fst ?ap"
      and s1: "s1 = (snd ?ap)\<lparr>last_notas := Some (fst ?ap),
          notas_table := save_notas_to_db lib (fst ?ap) (notas_table (snd ?ap))\<rparr>"
      by simp_all
    have lr: "last_result s1 = Some issues"
      using s1 after_passes_last_result[of lib env cfg f issues s] assms(2) by simp
    have "cached_nota s1 k" if "k \<in> set (batch_keys issues)" for k
      using after_passes_all_evaluated[OF that, of lib env cfg f s] s1
      by (simp add: cached_nota_def cache_of_def)
    then have c: "\<forall>k\<in>set (batch_keys issues). cached_nota s1 k" by blast
    from cached_batch_run[OF lr assms(3) url c, of lib env2] show ?thesis by blast
  qed
qed

lemma executor_404:
  assumes "\<forall>i. \<exists>b. env i = Response 404 b" and "env_or_none v = Some u"
  shows "get_issue_note_from_ollama lib (\<lambda>i. env (k + i)) (Some u) model = (fail msg_not_daemon, [GetTags])"
proof -
  from assms(2) have u: "u = strip v" "strip v \<noteq> []"
    by (auto simp: env_or_none_def split: if_splits)
  then have "u \<noteq> []" "strip u \<noteq> []" by (simp_all add: strip_strip)
  moreover from assms(1) obtain b where "env k = Response 404 b" by blast
  then have "discover (env (k + 0)) = Inl (fail msg_not_daemon)" by (simp add: discover_def)
  ultimately show ?thesis by (simp add: get_issue_note_from_ollama_def)
qed

lemma tentativas_404:
  assumes "\<forall>i. \<exists>b. env i = Response 404 b" and "env_or_none v = Some u"
  shows "tentativas lib env (Some u) model n k = (None, k + n)"
proof (induction n arbitrary: k)
  case 0
  then show ?case by simp
next
  case (Suc n)
  have "\<not> nota_is_evaluated (fail msg_not_daemon)" by (simp add: nota_is_evaluated_def fail_def)
  with Suc executor_404[OF assms, of lib k model] show ?case by simp
qed

lemma evaluate_one_404:
  assumes "\<forall>i. \<exists>b. env i = Response 404 b" and "env_or_none (ollama_url_env cfg) \<noteq> None"
  shows "evaluate_one_issue lib env cfg i k = (regras_judgement i, k + nat (max_tentativas cfg))"
proof -
  from assms(2) obtain u where u: "env_or_none (ollama_url_env cfg) = Some u" by blast
  show ?thesis
    using tentativas_404[OF assms(1) u, of lib] by (simp add: evaluate_one_issue_def u)
qed

lemma evaluate_keys_404:
  assumes "\<forall>i. \<exists>b. env i = Response 404 b" and "env_or_none (ollama_url_env cfg) \<noteq> None"
    and "\<forall>k\<in>set ks. ibk k \<noteq> None"
    and "k \<in> set ks \<or> notas_get out k = Some (regras_judgement (the (ibk k)))"
  shows "notas_get (fst (evaluate_keys lib env cfg ibk ks (out, s))) k
           = Some (regras_judgement (the (ibk k)))"
  using assms(3,4)
proof (induction ks arbitrary: out s)
  case Nil
  then show ?case by simp
next
  case (Cons key rest)
  from Cons.prems(1) obtain i where i: "ibk key = Some i" by auto
  let ?out = "notas_set key (regras_judgement i) out"
  have "k \<in> set rest \<or> notas_get ?out k = Some (regras_judgement (the (ibk k)))"
    using Cons.prems(2) i by (auto simp: notas_get_set)
  with Cons.IH[of ?out] Cons.prems(1) i evaluate_one_404[OF assms(1,2), of lib i "n_calls s"]
  show ?case by (simp add: Let_def)
qed

text \<open>
  C8 (as amended). With a backend that answers 404 to every call, a run returns, every
  ticket of the batch gets a rating from 1 to 5, and every ticket that is evaluated (each
  one in a forced run, else each one without a valid cached rating) gets the judgment of
  line 1960: the rating of the rule-based scorer for the issue, with its comment after the
  prefix. A ticket with a valid cached rating keeps its cached entry in a run that is not
  forced.
\<close>

theorem not_found_backend_gives_rule_based:
  assumes "\<forall>i. \<exists>b. env i = Response 404 b"
    and "last_result s = Some issues" and "issues \<noteq> []"
    and "env_or_none (ollama_url_env cfg) \<noteq> None"
  shows "\<exists>out s'. run_evaluate_all_until_complete lib env cfg force_reavaliar s = Some (Notas out, s') \<and>
           (\<forall>k\<in>set (batch_keys issues). \<exists>i j.
              issue_by_key issues k = Some i \<and> notas_get out k = Some j \<and> nota_is_evaluated j \<and>
              j = (if \<not> force_reavaliar \<and> cached_nota s k then cached_entry s k
                   else regras_judgement i) \<and>
              nota (regras_judgement i) = nota (get_issue_note_rule_based i))"
proof (cases "task_list issues = []")
  case True
  with assms show ?thesis
    by (simp add: run_evaluate_all_until_complete_def batch_keys_def)
next
  case False
  let ?f = force_reavaliar
  let ?keys = "batch_keys issues"
  let ?ap = "after_passes lib env cfg ?f issues s"
  define out0 where "out0 = initial_out ?f (if ?f then Map.empty else loaded_of s)
      (if ?f then Map.empty else cache_of s) ?keys []"
  define ks where "ks = keys_sem_nota ?keys out0"
  have ap: "?ap = (if ks = [] then (out0, s)
      else evaluate_keys lib env cfg (issue_by_key issues) ks (out0, s))"
    by (simp add: after_passes_def Let_def out0_def ks_def)
  have h: "\<forall>k\<in>set ks. issue_by_key issues k \<noteq> None"
    using batch_keys_have_issue by (fastforce simp: keys_sem_nota_def ks_def)
  have e0: "notas_get out0 k = Some (if ?f then initial_entry True Map.empty Map.empty k
      else cached_entry s k)" if "k \<in> set ?keys" for k
    using that by (simp add: out0_def initial_out_get cached_entry_def)
  have ev0: "has_nota (notas_get out0) k \<longleftrightarrow> \<not> ?f \<and> cached_nota s k" if "k \<in> set ?keys" for k
    using e0[OF that] initial_entry_forced[of k]
    by (simp add: has_nota_def cached_nota_def cached_entry_def
        initial_entry_not_forced[unfolded has_nota_def])
  have main: "notas_get (fst ?ap) k =
      Some (if \<not> ?f \<and> cached_nota s k then cached_entry s k
            else regras_judgement (the (issue_by_key issues k)))" if k: "k \<in> set ?keys" for k
  proof (cases "\<not> ?f \<and> cached_nota s k")
    case True
    then have nk: "k \<notin> set ks" using ev0[OF k] by (simp add: keys_sem_nota_def ks_def)
    have "notas_get (fst ?ap) k = notas_get out0 k"
      using evaluate_keys_other[OF nk, of lib env cfg "issue_by_key issues" out0 s]
      by (simp add: ap)
    with True e0[OF k] show ?thesis by simp
  next
    case c: False
    then have ik: "k \<in> set ks" using ev0[OF k] k by (auto simp: keys_sem_nota_def ks_def)
    then have ne: "ks \<noteq> []" by auto
    from evaluate_keys_404[OF assms(1,4) h, of k out0 lib s] ik ne c show ?thesis
      by (auto simp: ap)
  qed
  have "\<exists>i j. issue_by_key issues k = Some i \<and> notas_get (fst ?ap) k = Some j \<and> nota_is_evaluated j \<and>
              j = (if \<not> ?f \<and> cached_nota s k then cached_entry s k else regras_judgement i) \<and>
              nota (regras_judgement i) = nota (get_issue_note_rule_based i)"
    if k: "k \<in> set ?keys" for k
  proof -
    from batch_keys_have_issue[OF k] obtain i where i: "issue_by_key issues k = Some i" by blast
    have "nota_is_evaluated (cached_entry s k)" if "cached_nota s k"
      using that by (simp add: cached_entry_def cached_nota_def initial_entry_not_forced)
    with main[OF k] i regras_evaluated[of i] regras_nota[of i] show ?thesis by auto
  qed
  then show ?thesis
    using run_eq[OF assms(2,3,4) False, of lib env ?f] by simp
qed

lemma save_single:
  assumes "strip k \<noteq> []" "comentario j = PStr c" "sqlite_int (nota j)"
  shows "save_notas_to_db lib [(k, j)] db = db(strip k \<mapsto> (nota j, take 500 c))"
proof -
  from assms(1) have "k \<noteq> []" by (auto simp: strip_def)
  with assms show ?thesis
    by (simp add: save_notas_to_db_def or_empty_slice_def)
qed

lemma evaluate_keys_fresh:
  assumes "\<forall>k\<in>set ks. ibk k \<noteq> None"
    and "k \<in> set ks \<or> (\<exists>c. notas_get out k = Some (fst (evaluate_one_issue lib env cfg (the (ibk k)) c)))"
  shows "\<exists>c. notas_get (fst (evaluate_keys lib env cfg ibk ks (out, s))) k
           = Some (fst (evaluate_one_issue lib env cfg (the (ibk k)) c))"
  using assms
proof (induction ks arbitrary: out s)
  case Nil
  then show ?case by simp
next
  case (Cons key rest)
  from Cons.prems(1) obtain i where i: "ibk key = Some i" by auto
  obtain result k' where e: "evaluate_one_issue lib env cfg i (n_calls s) = (result, k')"
    by (meson surj_pair)
  let ?out = "notas_set key result out"
  have "k \<in> set rest \<or> (\<exists>c. notas_get ?out k = Some (fst (evaluate_one_issue lib env cfg (the (ibk k)) c)))"
  proof (cases "k = key")
    case True
    have "notas_get ?out k = Some (fst (evaluate_one_issue lib env cfg (the (ibk k)) (n_calls s)))"
      using True i e by (simp add: notas_get_set)
    then show ?thesis by blast
  next
    case False
    with Cons.prems(2) show ?thesis by (auto simp: notas_get_set)
  qed
  with Cons.IH[of ?out] Cons.prems(1) i e show ?case by (simp add: Let_def)
qed

text \<open>
  C2 (as amended). \<open>_save_notas_to_db\<close> has no forced flag: a put replaces the row of
  its key, so after a put of \<open>j1\<close> and a put of \<open>j2\<close> for the same ticket the stored
  rating is the one of \<open>j2\<close>. A valid entry is preserved by the controller: in a run
  that is not forced, a ticket whose entry in the table is valid is returned with that
  entry, whatever the backend answers; in a forced run its judgment is the result of an
  evaluation made in that run.
\<close>

theorem put_replaces_controller_preserves:
  assumes "strip k \<noteq> []" and "comentario j2 = PStr c2" and "sqlite_int (nota j2)"
    and "last_result s = Some issues" and "issues \<noteq> []"
    and "env_or_none (ollama_url_env cfg) \<noteq> None"
    and "t \<in> set (batch_keys issues)"
  shows "save_notas_to_db lib [(k, j2)] (save_notas_to_db lib [(k, j1)] table) (strip k)
           = Some (nota j2, take 500 c2) \<and>
         (has_nota (loaded_of s) t \<longrightarrow>
            (\<exists>out s'. run_evaluate_all_until_complete lib env cfg False s = Some (Notas out, s') \<and>
               notas_get out t = loaded_of s t)) \<and>
         (\<exists>out s' i c. run_evaluate_all_until_complete lib env cfg True s = Some (Notas out, s') \<and>
               issue_by_key issues t = Some i \<and>
               notas_get out t = Some (fst (evaluate_one_issue lib env cfg i c)))"
proof -
  have a: "save_notas_to_db lib [(k, j2)] (save_notas_to_db lib [(k, j1)] table) (strip k)
           = Some (nota j2, take 500 c2)"
    by (simp add: save_single[OF assms(1-3)])
  have tl: "task_list issues \<noteq> []" using assms(7) by (auto simp: batch_keys_def)
  have b: "\<exists>out s'. run_evaluate_all_until_complete lib env cfg False s = Some (Notas out, s') \<and>
               notas_get out t = loaded_of s t" if v: "has_nota (loaded_of s) t"
  proof -
    let ?ap = "after_passes lib env cfg False issues s"
    define out0 where "out0 = initial_out False (loaded_of s) (cache_of s) (batch_keys issues) []"
    define ks where "ks = keys_sem_nota (batch_keys issues) out0"
    have ap: "?ap = (if ks = [] then (out0, s)
        else evaluate_keys lib env cfg (issue_by_key issues) ks (out0, s))"
      by (simp add: after_passes_def Let_def out0_def ks_def)
    have e0: "notas_get out0 t = loaded_of s t"
      using assms(7) v
      by (auto simp: out0_def initial_out_get initial_entry_def entry_or_def has_nota_def
          split: option.splits)
    then have "t \<notin> set ks" using v by (simp add: ks_def keys_sem_nota_def has_nota_def)
    from evaluate_keys_other[OF this, of lib env cfg "issue_by_key issues" out0 s] e0
    have "notas_get (fst ?ap) t = loaded_of s t" by (simp add: ap)
    then show ?thesis using run_eq[OF assms(4-6) tl, of lib env False] by simp
  qed
  have c: "\<exists>out s' i c. run_evaluate_all_until_complete lib env cfg True s = Some (Notas out, s') \<and>
               issue_by_key issues t = Some i \<and>
               notas_get out t = Some (fst (evaluate_one_issue lib env cfg i c))"
  proof -
    let ?ap = "after_passes lib env cfg True issues s"
    define out0 where "out0 = initial_out True Map.empty Map.empty (batch_keys issues) []"
    define ks where "ks = keys_sem_nota (batch_keys issues) out0"
    have ap: "?ap = (if ks = [] then (out0, s)
        else evaluate_keys lib env cfg (issue_by_key issues) ks (out0, s))"
      by (simp add: after_passes_def Let_def out0_def ks_def)
    have "\<not> has_nota (notas_get out0) t"
      using assms(7) initial_entry_forced[of t] by (simp add: out0_def initial_out_get has_nota_def)
    then have ik: "t \<in> set ks" using assms(7) by (simp add: ks_def keys_sem_nota_def)
    then have ne: "ks \<noteq> []" by auto
    have h: "\<forall>k\<in>set ks. issue_by_key issues k \<noteq> None"
      using batch_keys_have_issue by (fastforce simp: keys_sem_nota_def ks_def)
    from batch_keys_have_issue[OF assms(7)] obtain i where i: "issue_by_key issues t = Some i" by blast
    from evaluate_keys_fresh[OF h, of t out0 lib env cfg s] ik i ne
    obtain c where "notas_get (fst ?ap) t = Some (fst (evaluate_one_issue lib env cfg i c))"
      by (auto simp: ap)
    with i show ?thesis using run_eq[OF assms(4-6) tl, of lib env True] by auto
  qed
  from a b c show ?thesis by blast
qed

lemma sample_facts:
  "strip ''T-1'' \<noteq> []"
  "env_or_none (ollama_url_env sample_config) \<noteq> None"
  "batch_keys [sample_issue] = [''T-1'']"
  "cached_nota session_cached ''T-1''"
  "has_nota (loaded_of session_stored) ''T-1''"
  "\<not> cached_nota session_fresh ''T-1''"
  by code_simp+

lemma sample_sessions:
  "last_result session_fresh = Some [sample_issue]"
  "last_result session_cached = Some [sample_issue]"
  "last_result session_stored = Some [sample_issue]"
  by (simp_all add: session_fresh_def session_cached_def session_stored_def)

lemma env_404_all: "\<forall>i. \<exists>b. env_404 i = Response 404 b"
  by (simp add: env_404_def)

text \<open>
  C2 as stated fails: after a put of a judgment rated 4 and a second put, not marked in any
  way, of one rated 2 for the same ticket, the stored rating is 2.
\<close>

theorem second_put_overwrites:
  "save_notas_to_db sample_lib [(''T-1'', \<lparr>nota = Some 2, comentario = PStr ''b''\<rparr>)]
     (save_notas_to_db sample_lib [(''T-1'', \<lparr>nota = Some 4, comentario = PStr ''a''\<rparr>)]
        Map.empty) ''T-1''
   = Some (Some 2, ''b'')"
  by code_simp

theorem put_replaces_controller_preserves_witness:
  "strip ''T-1'' \<noteq> [] \<and>
   has_nota (loaded_of session_stored) ''T-1'' \<and>
   save_notas_to_db sample_lib [(''T-1'', \<lparr>nota = Some 2, comentario = PStr ''b''\<rparr>)]
     (save_notas_to_db sample_lib [(''T-1'', nota_5_ok)] Map.empty) (strip ''T-1'')
     = Some (Some 2, take 500 ''b'') \<and>
   (\<exists>out s'. run_evaluate_all_until_complete sample_lib env_404 sample_config False session_stored
        = Some (Notas out, s') \<and>
      notas_get out ''T-1'' = loaded_of session_stored ''T-1'') \<and>
   (\<exists>out s' i c. run_evaluate_all_until_complete sample_lib env_404 sample_config True session_stored
        = Some (Notas out, s') \<and>
      issue_by_key [sample_issue] ''T-1'' = Some i \<and>
      notas_get out ''T-1'' = Some (fst (evaluate_one_issue sample_lib env_404 sample_config i c)))"
proof -
  have c: "comentario \<lparr>nota = Some 2, comentario = PStr ''b''\<rparr> = PStr ''b''" by simp
  have q: "sqlite_int (nota \<lparr>nota = Some 2, comentario = PStr ''b''\<rparr>)"
    by (simp add: sqlite_int_def)
  have t: "''T-1'' \<in> set (batch_keys [sample_issue])" by (simp add: sample_facts(3))
  from put_replaces_controller_preserves[OF sample_facts(1) c q sample_sessions(3) _
      sample_facts(2) t, of sample_lib nota_5_ok Map.empty env_404]
    sample_facts(1,5)
  show ?thesis by auto
qed

lemma run_cached_value:
  "map_option fst
     (run_evaluate_all_until_complete sample_lib env_404 sample_config False session_cached)
   = Some (Notas [(''T-1'', nota_5_ok)])"
  by code_simp

theorem cached_batch_no_calls_witness:
  "last_result session_cached = Some [sample_issue] \<and>
   batch_keys [sample_issue] = [''T-1''] \<and>
   cached_nota session_cached ''T-1'' \<and>
   (\<exists>out s'. run_evaluate_all_until_complete sample_lib env_404 sample_config False session_cached
        = Some (Notas out, s') \<and>
      n_calls s' = n_calls session_cached \<and>
      notas_get out ''T-1'' = Some (cached_entry session_cached ''T-1'') \<and>
      nota_is_evaluated (cached_entry session_cached ''T-1''))"
proof -
  have h: "\<forall>k\<in>set (batch_keys [sample_issue]). cached_nota session_cached k"
    by (simp add: sample_facts(3,4))
  from cached_batch_no_calls[OF sample_sessions(2) _ sample_facts(2) h, of sample_lib env_404]
    sample_sessions(2) sample_facts(3,4)
  show ?thesis by auto
qed

text \<open>
  C8 as stated fails for a ticket with a valid cached rating: with the backend answering
  404 to every call, the run returns the cached judgment rated 5 for the sample issue,
  while the rule-based scorer rates that issue 1.
\<close>

theorem cached_ticket_not_rescored:
  "map_option fst
     (run_evaluate_all_until_complete sample_lib env_404 sample_config False session_cached)
   = Some (Notas [(''T-1'', \<lparr>nota = Some 5, comentario = PStr ''ok''\<rparr>)]) \<and>
   nota (get_issue_note_rule_based sample_issue) = Some 1"
  by code_simp

lemma run_fresh_value:
  "map_option fst
     (run_evaluate_all_until_complete sample_lib env_404 sample_config False session_fresh)
   = Some (Notas [(''T-1'', regras_judgement sample_issue)])"
  by code_simp

theorem not_found_backend_gives_rule_based_witness:
  "last_result session_fresh = Some [sample_issue] \<and>
   batch_keys [sample_issue] = [''T-1''] \<and>
   \<not> cached_nota session_fresh ''T-1'' \<and>
   (\<exists>out s' i j. run_evaluate_all_until_complete sample_lib env_404 sample_config False session_fresh
        = Some (Notas out, s') \<and>
      issue_by_key [sample_issue] ''T-1'' = Some i \<and> notas_get out ''T-1'' = Some j \<and>
      nota_is_evaluated j \<and> j = regras_judgement i \<and>
      nota (regras_judgement i) = nota (get_issue_note_rule_based i))"
proof -
  from not_found_backend_gives_rule_based[OF env_404_all sample_sessions(1) _ sample_facts(2),
      of sample_lib False]
  obtain out s' where r: "run_evaluate_all_until_complete sample_lib env_404 sample_config False
        session_fresh = Some (Notas out, s')"
    and a: "\<forall>k\<in>set (batch_keys [sample_issue]). \<exists>i j.
      issue_by_key [sample_issue] k = Some i \<and> notas_get out k = Some j \<and> nota_is_evaluated j \<and>
      j = (if \<not> False \<and> cached_nota session_fresh k then cached_entry session_fresh k
           else regras_judgement i) \<and>
      nota (regras_judgement i) = nota (get_issue_note_rule_based i)"
    by blast
  have "''T-1'' \<in> set (batch_keys [sample_issue])" by (simp add: sample_facts(3))
  from bspec[OF a this] obtain i j where
    "issue_by_key [sample_issue] ''T-1'' = Some i" "notas_get out ''T-1'' = Some j"
    "nota_is_evaluated j" "j = regras_judgement i"
    "nota (regras_judgement i) = nota (get_issue_note_rule_based i)"
    using sample_facts(6) by auto
  with r sample_sessions(1) sample_facts(3,6) show ?thesis by blast
qed

end
